theory Spec2Isabelle
  imports Main "HOL-Library.Multiset"
begin

section \<open>Peer discovery over a DHT: \<^verbatim>\<open>src/pkg/discovery/dht.go\<close>\<close>

text \<open>
  The file drives three external collaborators: the libp2p host (\<^verbatim>\<open>host.ID\<close>,
  \<^verbatim>\<open>host.Network().Connectedness\<close>, \<^verbatim>\<open>host.Connect\<close>), the Kademlia DHT
  (\<^verbatim>\<open>dht.New\<close>, \<^verbatim>\<open>Bootstrap\<close>, routing discovery) and the TOTP generator.
  None of them is code of the repository, so each call is a parameter of the model: a
  field of the record \<open>env\<close>, a function of the state \<open>'w\<close> of the outside world
  that returns the call's result and the world after the call. Every call is atomic.
  What the program does to the outside is the list of \<open>event\<close>s it emits, in order.
\<close>

subsection \<open>Data\<close>

type_synonym peer_ID = string
type_synonym Multiaddr = string
type_synonym IpfsDHT = nat
type_synonym StandardLogger = nat
type_synonym dht_Option = nat
type_synonym Duration = int

text \<open>\<^verbatim>\<open>peer.AddrInfo\<close>: the fields the file reads.\<close>

record AddrInfo =
  ID :: peer_ID
  Addrs :: "Multiaddr list"

text \<open>\<^verbatim>\<open>network.Connectedness\<close>; the file compares with \<^verbatim>\<open>network.Connected\<close> only.\<close>

datatype Connectedness = NotConnected | Connected | CanConnect | CannotConnect

text \<open>A Go \<^verbatim>\<open>error\<close> value that is not nil, with its \<^verbatim>\<open>Error()\<close> text.\<close>

datatype error = Error string

text \<open>
  The struct \<^verbatim>\<open>DHT\<close> (lines 34-45). A nil pointer or interface is \<open>None\<close>.
  \<^verbatim>\<open>AddrList\<close> is declared elsewhere in the package; the file takes its length,
  ranges over it and assigns \<^verbatim>\<open>dht.DefaultBootstrapPeers\<close> to it, so it is a list
  of multiaddresses.
\<close>

record DHT =
  OTPKey :: string
  OTPInterval :: int
  KeyLength :: int
  RendezvousString :: string
  BootstrapPeers :: "Multiaddr list"
  latestRendezvous :: string
  console :: "StandardLogger option"
  RefreshDiscoveryTime :: Duration
  dht :: "IpfsDHT option"
  dhtOptions :: "dht_Option list"

text \<open>
  The channel \<^verbatim>\<open>FindPeers\<close> returns, as the loop of line 175 sees it: the peers it
  delivers, and whether it is closed after the last of them (a channel that is never
  closed leaves the loop blocked on the receive).
\<close>

datatype peerChan = PeerChan (received: "AddrInfo list") (closes: bool)

text \<open>
  The external calls. A Go result pair \<^verbatim>\<open>(x, err)\<close> of a library function is a
  sum: \<open>Inl\<close> the error (the library returns a nil \<^verbatim>\<open>x\<close> with it), \<open>Inr\<close> the
  result. \<open>totp_Now key digits interval\<close> is
  \<^verbatim>\<open>gotp.NewTOTP(key, digits, interval, nil).Now()\<close>.
\<close>

record 'w env =
  host_ID :: peer_ID
  host_Connectedness :: "peer_ID \<Rightarrow> 'w \<Rightarrow> Connectedness \<times> 'w"
  host_Connect :: "AddrInfo \<Rightarrow> 'w \<Rightarrow> error option \<times> 'w"
  peer_AddrInfoFromP2pAddr :: "Multiaddr \<Rightarrow> error + AddrInfo"
  dht_New :: "dht_Option list \<Rightarrow> 'w \<Rightarrow> (error + IpfsDHT) \<times> 'w"
  dht_Bootstrap :: "IpfsDHT \<Rightarrow> 'w \<Rightarrow> error option \<times> 'w"
  dht_DefaultBootstrapPeers :: "Multiaddr list"
  discovery_Advertise :: "IpfsDHT \<Rightarrow> string \<Rightarrow> 'w \<Rightarrow> 'w"
  FindPeers :: "IpfsDHT \<Rightarrow> string \<Rightarrow> 'w \<Rightarrow> (error + peerChan) \<times> 'w"
  totp_Now :: "string \<Rightarrow> int \<Rightarrow> int \<Rightarrow> 'w \<Rightarrow> string \<times> 'w"

text \<open>
  The calls the program makes, each with its arguments and what it returned, and the
  lines it logs (\<open>Debug logger text peer\<close>: the text, then the peer printed after it).
\<close>

datatype event =
    Info StandardLogger string
  | Debug StandardLogger string "AddrInfo option"
  | CallConnectedness peer_ID Connectedness
  | CallConnect AddrInfo "error option"
  | CallAdvertise IpfsDHT string
  | CallFindPeers IpfsDHT string "error option"
  | CallNew "dht_Option list" "error + IpfsDHT"
  | CallBootstrap IpfsDHT "error option"
  | CallTOTPNow string int int string
  | NewTimer Duration
  | TimerStop

text \<open>
  How a call of the program ends: it returns, it panics (the process dies), or it is
  blocked for good at a wait, which ends the part of the execution the inputs describe.
\<close>

datatype blocked_at = WgWait | ChanRecv | Select

datatype 'a outcome = Returned 'a | Panicked | Blocked blocked_at

subsection \<open>\<^verbatim>\<open>NewDHT\<close>, \<^verbatim>\<open>Rendezvous\<close>, \<^verbatim>\<open>startDHT\<close>\<close>

text \<open>Line 47: every field but \<^verbatim>\<open>dhtOptions\<close> has Go's zero value.\<close>

definition NewDHT :: "dht_Option list \<Rightarrow> DHT" where
  "NewDHT opts =
     \<lparr>OTPKey = [], OTPInterval = 0, KeyLength = 0, RendezvousString = [],
      BootstrapPeers = [], latestRendezvous = [], console = None,
      RefreshDiscoveryTime = 0, dht = None, dhtOptions = opts\<rparr>"

text \<open>Lines 57-67. The result, the struct after the call, the events, the world.\<close>

definition Rendezvous :: "'w env \<Rightarrow> DHT \<Rightarrow> 'w \<Rightarrow> string \<times> DHT \<times> event list \<times> 'w" where
  "Rendezvous env d w =
     (if OTPKey d \<noteq> [] then
        (case totp_Now env (OTPKey d) (KeyLength d) (OTPInterval d) w of
           (rv, w1) \<Rightarrow>
             (rv, d\<lparr>latestRendezvous := rv\<rparr>,
              [CallTOTPNow (OTPKey d) (KeyLength d) (OTPInterval d) rv], w1))
      else (RendezvousString d, d, [], w))"

text \<open>
  Lines 69-83, one caller running alone. The result is Go's pair: the pointer read
  from \<^verbatim>\<open>d.dht\<close>, and the error.
\<close>

definition startDHT ::
  "'w env \<Rightarrow> DHT \<Rightarrow> 'w \<Rightarrow> (IpfsDHT option \<times> error option) \<times> DHT \<times> event list \<times> 'w" where
  "startDHT env d w =
     (if dht d = None then
        (case dht_New env (dhtOptions d) w of
           (Inl err, w1) \<Rightarrow> ((dht d, Some err), d, [CallNew (dhtOptions d) (Inl err)], w1)
         | (Inr kad, w1) \<Rightarrow>
             ((Some kad, None), d\<lparr>dht := Some kad\<rparr>, [CallNew (dhtOptions d) (Inr kad)], w1))
      else ((dht d, None), d, [], w))"

text \<open>
  Line 51: the routing constructor \<^verbatim>\<open>Option\<close> hands to libp2p calls
  \<^verbatim>\<open>startDHT\<close> when libp2p invokes it.
\<close>

definition Option_Routing ::
  "'w env \<Rightarrow> DHT \<Rightarrow> 'w \<Rightarrow> (IpfsDHT option \<times> error option) \<times> DHT \<times> event list \<times> 'w" where
  "Option_Routing env d w = startDHT env d w"

text \<open>
  Callers of \<^verbatim>\<open>startDHT\<close> that overlap. The struct has no lock, so a caller can be
  preempted between the test of line 70 and the creation of lines 75-79, and before the
  read of line 82. A caller is at one of these places or has returned its pair; a
  schedule names the caller that takes the next step.
\<close>

datatype startDHT_pc = AtCheck | AtNew | AtReturn | Finished "IpfsDHT option" "error option"

fun startDHT_step ::
  "'w env \<Rightarrow> startDHT_pc \<Rightarrow> DHT \<Rightarrow> 'w \<Rightarrow> startDHT_pc \<times> DHT \<times> event list \<times> 'w" where
  "startDHT_step env AtCheck d w = (if dht d = None then AtNew else AtReturn, d, [], w)"
| "startDHT_step env AtNew d w =
     (case dht_New env (dhtOptions d) w of
        (Inl err, w1) \<Rightarrow> (Finished (dht d) (Some err), d, [CallNew (dhtOptions d) (Inl err)], w1)
      | (Inr kad, w1) \<Rightarrow> (AtReturn, d\<lparr>dht := Some kad\<rparr>, [CallNew (dhtOptions d) (Inr kad)], w1))"
| "startDHT_step env AtReturn d w = (Finished (dht d) None, d, [], w)"
| "startDHT_step env (Finished k e) d w = (Finished k e, d, [], w)"

fun startDHT_threads ::
  "'w env \<Rightarrow> nat list \<Rightarrow> startDHT_pc list \<Rightarrow> DHT \<Rightarrow> 'w \<Rightarrow>
   startDHT_pc list \<times> DHT \<times> event list \<times> 'w" where
  "startDHT_threads env [] pcs d w = (pcs, d, [], w)"
| "startDHT_threads env (i # sched) pcs d w =
     (if i < length pcs then
        (case startDHT_step env (pcs ! i) d w of
           (pc', d1, ev1, w1) \<Rightarrow>
             (case startDHT_threads env sched (pcs[i := pc']) d1 w1 of
                (pcs', d2, ev2, w2) \<Rightarrow> (pcs', d2, ev1 @ ev2, w2)))
      else startDHT_threads env sched pcs d w)"

text \<open>The instances \<^verbatim>\<open>dht.New\<close> created, in order.\<close>

fun created :: "event list \<Rightarrow> IpfsDHT list" where
  "created [] = []"
| "created (CallNew opts (Inr kad) # es) = kad # created es"
| "created (e # es) = created es"

subsection \<open>\<^verbatim>\<open>bootstrapPeers\<close>\<close>

text \<open>
  Lines 141-160. The loop parses every address, drops the error (\<^verbatim>\<open>peerinfo, _ :=\<close>)
  and starts one goroutine per address with the pointer it got, nil when the parse
  failed. A goroutine is about to run line 150, or has seen a peer that is not
  connected and is about to run line 151, or has left (\<^verbatim>\<open>wg.Done\<close>).
\<close>

datatype worker = Spawned "AddrInfo option" | Dialing AddrInfo | Exited

text \<open>
  One step of a goroutine; \<open>None\<close> is the panic of line 150, where \<^verbatim>\<open>peerinfo.ID\<close>
  reads through a nil pointer.
\<close>

fun worker_step ::
  "'w env \<Rightarrow> StandardLogger \<Rightarrow> worker \<Rightarrow> 'w \<Rightarrow> worker option \<times> event list \<times> 'w" where
  "worker_step env c (Spawned None) w = (None, [], w)"
| "worker_step env c (Spawned (Some peerinfo)) w =
     (case host_Connectedness env (ID peerinfo) w of
        (cn, w1) \<Rightarrow>
          (Some (if cn \<noteq> Connected then Dialing peerinfo else Exited),
           [CallConnectedness (ID peerinfo) cn], w1))"
| "worker_step env c (Dialing peerinfo) w =
     (case host_Connect env peerinfo w of
        (Some (Error msg), w1) \<Rightarrow>
          (Some Exited, [CallConnect peerinfo (Some (Error msg)), Debug c msg None], w1)
      | (None, w1) \<Rightarrow>
          (Some Exited,
           [CallConnect peerinfo None,
            Debug c ''Connection established with bootstrap node:'' (Some peerinfo)], w1))"
| "worker_step env c Exited w = (Some Exited, [], w)"

text \<open>
  The goroutines under a schedule (the index of the goroutine that takes the next
  step), then \<^verbatim>\<open>wg.Wait\<close>: it returns when every goroutine has left, and a schedule
  that ends before that leaves the caller blocked there.
\<close>

fun run_workers ::
  "'w env \<Rightarrow> StandardLogger \<Rightarrow> nat list \<Rightarrow> worker list \<Rightarrow> 'w \<Rightarrow>
   unit outcome \<times> event list \<times> 'w" where
  "run_workers env c [] ws w =
     (if list_all (\<lambda>g. g = Exited) ws then Returned () else Blocked WgWait, [], w)"
| "run_workers env c (i # sched) ws w =
     (if i < length ws then
        (case worker_step env c (ws ! i) w of
           (None, ev1, w1) \<Rightarrow> (Panicked, ev1, w1)
         | (Some g, ev1, w1) \<Rightarrow>
             (case run_workers env c sched (ws[i := g]) w1 of
                (out, ev2, w2) \<Rightarrow> (out, ev1 @ ev2, w2)))
      else run_workers env c sched ws w)"

definition spawn :: "'w env \<Rightarrow> Multiaddr \<Rightarrow> worker" where
  "spawn env peerAddr =
     Spawned (case peer_AddrInfoFromP2pAddr env peerAddr of
                Inl err \<Rightarrow> None
              | Inr peerinfo \<Rightarrow> Some peerinfo)"

definition bootstrapPeers ::
  "'w env \<Rightarrow> StandardLogger \<Rightarrow> nat list \<Rightarrow> DHT \<Rightarrow> 'w \<Rightarrow> unit outcome \<times> event list \<times> 'w" where
  "bootstrapPeers env c sched d w =
     run_workers env c sched (map (spawn env) (BootstrapPeers d)) w"

text \<open>The schedule that runs the goroutines one after the other, in the order of the list.\<close>

definition in_turn :: "nat \<Rightarrow> nat list" where
  "in_turn n = concat (map (\<lambda>i. [i, i]) [0..<n])"

subsection \<open>\<^verbatim>\<open>announceAndConnect\<close>\<close>

text \<open>The loop of lines 175-191 over the peers the channel delivers.\<close>

fun range_peerChan ::
  "'w env \<Rightarrow> StandardLogger \<Rightarrow> AddrInfo list \<Rightarrow> bool \<Rightarrow> 'w \<Rightarrow>
   unit outcome \<times> event list \<times> 'w" where
  "range_peerChan env lg [] closed w =
     (if closed then Returned () else Blocked ChanRecv, [], w)"
| "range_peerChan env lg (p # ps) closed w =
     (if ID p = host_ID env \<or> Addrs p = [] then range_peerChan env lg ps closed w
      else
        (case host_Connectedness env (ID p) w of
           (cn, w1) \<Rightarrow>
             (if cn \<noteq> Connected then
                (case host_Connect env p w1 of
                   (r, w2) \<Rightarrow>
                     (case range_peerChan env lg ps closed w2 of
                        (out, evs, w3) \<Rightarrow>
                          (out,
                           [CallConnectedness (ID p) cn, Debug lg ''Found peer:'' (Some p),
                            CallConnect p r,
                            Debug lg (if r \<noteq> None then ''Failed connecting to''
                                      else ''Connected to:'') (Some p)] @ evs,
                           w3)))
              else
                (case range_peerChan env lg ps closed w1 of
                   (out, evs, w3) \<Rightarrow>
                     (out,
                      [CallConnectedness (ID p) cn,
                       Debug lg ''Known peer (already connected):'' (Some p)] @ evs,
                      w3)))))"

text \<open>
  Lines 162-194. \<^verbatim>\<open>d.console\<close> is an interface: calling \<^verbatim>\<open>Debug\<close> on nil panics.
  \<^verbatim>\<open>discovery.Advertise\<close> returns nothing.
\<close>

definition announceAndConnect ::
  "'w env \<Rightarrow> DHT \<Rightarrow> IpfsDHT \<Rightarrow> string \<Rightarrow> 'w \<Rightarrow> error option outcome \<times> event list \<times> 'w" where
  "announceAndConnect env d kademliaDHT rv w =
     (case console d of
        None \<Rightarrow> (Panicked, [], w)
      | Some lg \<Rightarrow>
          (case FindPeers env kademliaDHT rv (discovery_Advertise env kademliaDHT rv w) of
             (Inl err, w2) \<Rightarrow>
               (Returned (Some err),
                [Debug lg ''Announcing ourselves...'' None, CallAdvertise kademliaDHT rv,
                 Debug lg ''Successfully announced!'' None,
                 Debug lg ''Searching for other peers...'' None,
                 CallFindPeers kademliaDHT rv (Some err)], w2)
           | (Inr peerChan, w2) \<Rightarrow>
               (case range_peerChan env lg (received peerChan) (closes peerChan) w2 of
                  (out, evs, w3) \<Rightarrow>
                    (case out of Returned u \<Rightarrow> Returned None | Panicked \<Rightarrow> Panicked
                               | Blocked b \<Rightarrow> Blocked b,
                     [Debug lg ''Announcing ourselves...'' None, CallAdvertise kademliaDHT rv,
                      Debug lg ''Successfully announced!'' None,
                      Debug lg ''Searching for other peers...'' None,
                      CallFindPeers kademliaDHT rv None] @ evs,
                     w3))))"

subsection \<open>\<^verbatim>\<open>Run\<close>: startup, the closure \<^verbatim>\<open>connect\<close>, the refresh goroutine\<close>

text \<open>
  Lines 110-118, one discovery cycle. The value \<^verbatim>\<open>announceAndConnect\<close> returns is
  dropped at both calls.
\<close>

definition connect ::
  "'w env \<Rightarrow> StandardLogger \<Rightarrow> IpfsDHT \<Rightarrow> nat list \<Rightarrow> DHT \<Rightarrow> 'w \<Rightarrow>
   unit outcome \<times> DHT \<times> event list \<times> 'w" where
  "connect env c kademliaDHT sched d w =
     (case bootstrapPeers env c sched d w of
        (Panicked, ev1, w1) \<Rightarrow> (Panicked, d, ev1, w1)
      | (Blocked b, ev1, w1) \<Rightarrow> (Blocked b, d, ev1, w1)
      | (Returned u, ev1, w1) \<Rightarrow>
          (case (if latestRendezvous d \<noteq> []
                 then announceAndConnect env d kademliaDHT (latestRendezvous d) w1
                 else (Returned None, [], w1)) of
             (Panicked, ev2, w2) \<Rightarrow> (Panicked, d, ev1 @ ev2, w2)
           | (Blocked b, ev2, w2) \<Rightarrow> (Blocked b, d, ev1 @ ev2, w2)
           | (Returned r, ev2, w2) \<Rightarrow>
               (case Rendezvous env d w2 of
                  (rv, d3, ev3, w3) \<Rightarrow>
                    (case announceAndConnect env d3 kademliaDHT rv w3 of
                       (out, ev4, w4) \<Rightarrow>
                         (case out of Returned r' \<Rightarrow> Returned () | Panicked \<Rightarrow> Panicked
                                    | Blocked b \<Rightarrow> Blocked b,
                          d3, ev1 @ ev2 @ ev3 @ ev4, w4)))))"

text \<open>
  The \<^verbatim>\<open>select\<close> of line 128 is decided from outside: the context is done, or the
  timer fires (and the goroutines of the bootstrap pass that follows run under the
  schedule given with it).
\<close>

datatype select_case = CtxDone | TimerC "nat list"

text \<open>
  The \<^verbatim>\<open>for\<close> loop of lines 122-135 over the cases the \<^verbatim>\<open>select\<close> takes. When they
  run out the goroutine is blocked in the \<^verbatim>\<open>select\<close>.
\<close>

fun refresh_loop ::
  "'w env \<Rightarrow> StandardLogger \<Rightarrow> IpfsDHT \<Rightarrow> select_case list \<Rightarrow> DHT \<Rightarrow> 'w \<Rightarrow>
   unit outcome \<times> DHT \<times> event list \<times> 'w" where
  "refresh_loop env c kademliaDHT [] d w =
     (Blocked Select, d, [NewTimer (RefreshDiscoveryTime d)], w)"
| "refresh_loop env c kademliaDHT (CtxDone # rest) d w =
     (Returned (), d, [NewTimer (RefreshDiscoveryTime d), TimerStop], w)"
| "refresh_loop env c kademliaDHT (TimerC sched # rest) d w =
     (case connect env c kademliaDHT sched d w of
        (Returned u, d1, ev1, w1) \<Rightarrow>
          (case refresh_loop env c kademliaDHT rest d1 w1 of
             (out, d2, ev2, w2) \<Rightarrow>
               (out, d2, NewTimer (RefreshDiscoveryTime d) # ev1 @ ev2, w2))
      | (Panicked, d1, ev1, w1) \<Rightarrow>
          (Panicked, d1, NewTimer (RefreshDiscoveryTime d) # ev1, w1)
      | (Blocked b, d1, ev1, w1) \<Rightarrow>
          (Blocked b, d1, NewTimer (RefreshDiscoveryTime d) # ev1, w1))"

text \<open>The goroutine of lines 120-136: one cycle at once, then the loop.\<close>

definition refresh ::
  "'w env \<Rightarrow> StandardLogger \<Rightarrow> IpfsDHT \<Rightarrow> nat list \<Rightarrow> select_case list \<Rightarrow> DHT \<Rightarrow> 'w \<Rightarrow>
   unit outcome \<times> DHT \<times> event list \<times> 'w" where
  "refresh env c kademliaDHT sched0 script d w =
     (case connect env c kademliaDHT sched0 d w of
        (Returned u, d1, ev1, w1) \<Rightarrow>
          (case refresh_loop env c kademliaDHT script d1 w1 of
             (out, d2, ev2, w2) \<Rightarrow> (out, d2, ev1 @ ev2, w2))
      | (Panicked, d1, ev1, w1) \<Rightarrow> (Panicked, d1, ev1, w1)
      | (Blocked b, d1, ev1, w1) \<Rightarrow> (Blocked b, d1, ev1, w1))"

text \<open>
  What \<^verbatim>\<open>Run\<close> returns: an error, or nil after it has started the goroutine, which
  keeps the handle \<^verbatim>\<open>kademliaDHT\<close>.
\<close>

datatype run_result = ReturnErr error | ReturnNil IpfsDHT

text \<open>Lines 86-93: the defaults \<^verbatim>\<open>Run\<close> fills in, and the logger it stores.\<close>

definition Run_defaults :: "'w env \<Rightarrow> StandardLogger \<Rightarrow> DHT \<Rightarrow> DHT" where
  "Run_defaults env c d =
     (let d1 = (if KeyLength d = 0 then d\<lparr>KeyLength := 12\<rparr> else d);
          d2 = d1\<lparr>console := Some c\<rparr>
      in if BootstrapPeers d2 = []
         then d2\<lparr>BootstrapPeers := dht_DefaultBootstrapPeers env\<rparr> else d2)"

text \<open>
  Lines 85-139 up to the \<^verbatim>\<open>go\<close> statement. The logger \<^verbatim>\<open>c\<close> is not nil.
  \<^verbatim>\<open>Bootstrap\<close> on a nil handle would panic.
\<close>

definition Run ::
  "'w env \<Rightarrow> StandardLogger \<Rightarrow> DHT \<Rightarrow> 'w \<Rightarrow> run_result outcome \<times> DHT \<times> event list \<times> 'w" where
  "Run env c d w =
     (case startDHT env (Run_defaults env c d) w of
        ((kademliaDHT, Some err), d4, ev1, w1) \<Rightarrow> (Returned (ReturnErr err), d4, ev1, w1)
      | ((None, None), d4, ev1, w1) \<Rightarrow>
          (Panicked, d4, ev1 @ [Info c ''Bootstrapping DHT''], w1)
      | ((Some kad, None), d4, ev1, w1) \<Rightarrow>
          (case dht_Bootstrap env kad w1 of
             (Some err, w2) \<Rightarrow>
               (Returned (ReturnErr err), d4,
                ev1 @ [Info c ''Bootstrapping DHT'', CallBootstrap kad (Some err)], w2)
           | (None, w2) \<Rightarrow>
               (Returned (ReturnNil kad), d4,
                ev1 @ [Info c ''Bootstrapping DHT'', CallBootstrap kad None], w2)))"

text \<open>
  Requests for the routing handle that do not overlap, each through the constructor of
  \<^verbatim>\<open>Option\<close> or through \<^verbatim>\<open>Run\<close>, with the handle each one got (none when it
  failed).
\<close>

datatype request = ViaOption | ViaRun StandardLogger

fun requests ::
  "'w env \<Rightarrow> request list \<Rightarrow> DHT \<Rightarrow> 'w \<Rightarrow> IpfsDHT option list \<times> DHT \<times> event list \<times> 'w" where
  "requests env [] d w = ([], d, [], w)"
| "requests env (ViaOption # rq) d w =
     (case Option_Routing env d w of
        ((h, err), d1, ev1, w1) \<Rightarrow>
          (case requests env rq d1 w1 of
             (hs, d2, ev2, w2) \<Rightarrow> (h # hs, d2, ev1 @ ev2, w2)))"
| "requests env (ViaRun c # rq) d w =
     (case Run env c d w of
        (Returned (ReturnNil kad), d1, ev1, w1) \<Rightarrow>
          (case requests env rq d1 w1 of
             (hs, d2, ev2, w2) \<Rightarrow> (Some kad # hs, d2, ev1 @ ev2, w2))
      | (Returned (ReturnErr err), d1, ev1, w1) \<Rightarrow>
          (case requests env rq d1 w1 of
             (hs, d2, ev2, w2) \<Rightarrow> (None # hs, d2, ev1 @ ev2, w2))
      | (Panicked, d1, ev1, w1) \<Rightarrow> ([], d1, ev1, w1)
      | (Blocked b, d1, ev1, w1) \<Rightarrow> ([], d1, ev1, w1))"

subsection \<open>Reading a trace\<close>

text \<open>The rendezvous values advertised, in order.\<close>

fun advertised :: "event list \<Rightarrow> string list" where
  "advertised [] = []"
| "advertised (CallAdvertise kad rv # es) = rv # advertised es"
| "advertised (e # es) = advertised es"

text \<open>The peers whose connectedness was asked, in order.\<close>

fun examined :: "event list \<Rightarrow> peer_ID list" where
  "examined [] = []"
| "examined (CallConnectedness pid cn # es) = pid # examined es"
| "examined (e # es) = examined es"

text \<open>The peers \<^verbatim>\<open>host.Connect\<close> was called on, in order.\<close>

fun dialed :: "event list \<Rightarrow> AddrInfo list" where
  "dialed [] = []"
| "dialed (CallConnect p r # es) = p # dialed es"
| "dialed (e # es) = dialed es"

text \<open>
  Every call of \<^verbatim>\<open>host.Connect\<close> in a trace uses up one earlier answer of
  \<^verbatim>\<open>Connectedness\<close> for the same peer that was not \<^verbatim>\<open>Connected\<close>. The first
  argument holds the answers not used yet.
\<close>

fun guarded :: "peer_ID multiset \<Rightarrow> event list \<Rightarrow> bool" where
  "guarded M [] = True"
| "guarded M (CallConnectedness pid cn # es) =
     guarded (if cn \<noteq> Connected then add_mset pid M else M) es"
| "guarded M (CallConnect p r # es) = (ID p \<in># M \<and> guarded (M - {#ID p#}) es)"
| "guarded M (e # es) = guarded M es"

text \<open>
  The stronger reading of the same guard: every call of \<^verbatim>\<open>host.Connect\<close> finds
  that the last answer of \<^verbatim>\<open>Connectedness\<close> for its peer was not
  \<^verbatim>\<open>Connected\<close>, and uses that answer up. The first argument holds, for each
  peer, the last answer if it is not used yet.
\<close>

fun latest_guarded :: "(peer_ID \<Rightarrow> Connectedness option) \<Rightarrow> event list \<Rightarrow> bool" where
  "latest_guarded m [] = True"
| "latest_guarded m (CallConnectedness pid cn # es) = latest_guarded (m(pid := Some cn)) es"
| "latest_guarded m (CallConnect p r # es) =
     ((case m (ID p) of None \<Rightarrow> False | Some cn \<Rightarrow> cn \<noteq> Connected) \<and>
      latest_guarded (m(ID p := None)) es)"
| "latest_guarded m (e # es) = latest_guarded m es"

text \<open>The peers the goroutines that have not left will ask about or dial.\<close>

fun worker_ids :: "worker list \<Rightarrow> peer_ID list" where
  "worker_ids [] = []"
| "worker_ids (Spawned (Some p) # ws) = ID p # worker_ids ws"
| "worker_ids (Dialing p # ws) = ID p # worker_ids ws"
| "worker_ids (g # ws) = worker_ids ws"

text \<open>The timers armed (line 127), counted.\<close>

fun timers :: "event list \<Rightarrow> nat" where
  "timers [] = 0"
| "timers (NewTimer t # es) = Suc (timers es)"
| "timers (e # es) = timers es"

text \<open>The identifiers the TOTP generator produced, each with the digits asked for.\<close>

fun generated :: "event list \<Rightarrow> (int \<times> string) list" where
  "generated [] = []"
| "generated (CallTOTPNow key digits interval rv # es) = (digits, rv) # generated es"
| "generated (e # es) = generated es"

text \<open>The peers a connection attempt failed for, and the peers logged as such.\<close>

fun failed_dials :: "event list \<Rightarrow> AddrInfo list" where
  "failed_dials [] = []"
| "failed_dials (CallConnect p (Some err) # es) = p # failed_dials es"
| "failed_dials (e # es) = failed_dials es"

fun failure_logs :: "event list \<Rightarrow> AddrInfo list" where
  "failure_logs [] = []"
| "failure_logs (Debug lg msg (Some p) # es) =
     (if msg = ''Failed connecting to'' then p # failure_logs es else failure_logs es)"
| "failure_logs (e # es) = failure_logs es"

text \<open>The peers of the goroutines that stand between lines 150 and 151.\<close>

fun pending :: "worker list \<Rightarrow> peer_ID multiset" where
  "pending [] = {#}"
| "pending (Dialing p # ws) = add_mset (ID p) (pending ws)"
| "pending (g # ws) = pending ws"

subsection \<open>A small network to run the model on\<close>

text \<open>
  The world: the peers the host is connected to, and the number of DHT instances made
  so far. The host is \<open>self\<close>; the peer \<open>down\<close> refuses every connection; the
  rendezvous \<open>dark\<close> cannot be looked up; only the two addresses that end in a peer
  identity parse.
\<close>

record world =
  online :: "peer_ID list"
  made :: nat

definition lab_parse :: "Multiaddr \<Rightarrow> error + AddrInfo" where
  "lab_parse a =
     (if a = ''/ip4/10.0.0.1/p2p/boot''
      then Inr \<lparr>ID = ''boot'', Addrs = [''/ip4/10.0.0.1'']\<rparr>
      else if a = ''/ip4/10.0.0.2/p2p/seed''
      then Inr \<lparr>ID = ''seed'', Addrs = [''/ip4/10.0.0.2'']\<rparr>
      else Inl (Error ''invalid p2p multiaddr''))"

definition lab_peers :: "AddrInfo list" where
  "lab_peers =
     [\<lparr>ID = ''self'', Addrs = [''/ip4/10.0.0.9'']\<rparr>,
      \<lparr>ID = ''mute'', Addrs = []\<rparr>,
      \<lparr>ID = ''down'', Addrs = [''/ip4/10.0.0.3'']\<rparr>,
      \<lparr>ID = ''boot'', Addrs = [''/ip4/10.0.0.1'']\<rparr>,
      \<lparr>ID = ''peer'', Addrs = [''/ip4/10.0.0.4'']\<rparr>]"

definition lab :: "world env" where
  "lab =
     \<lparr>host_ID = ''self'',
      host_Connectedness =
        (\<lambda>pid w. (if pid \<in> set (online w) then Connected else NotConnected, w)),
      host_Connect =
        (\<lambda>p w. if ID p = ''down'' then (Some (Error ''dial failed''), w)
                else (None, w\<lparr>online := ID p # online w\<rparr>)),
      peer_AddrInfoFromP2pAddr = lab_parse,
      dht_New = (\<lambda>opts w. (Inr (made w), w\<lparr>made := Suc (made w)\<rparr>)),
      dht_Bootstrap = (\<lambda>kad w. (None, w)),
      dht_DefaultBootstrapPeers = [''/ip4/10.0.0.1/p2p/boot''],
      discovery_Advertise = (\<lambda>kad rv w. w),
      FindPeers =
        (\<lambda>kad rv w. (if rv = ''dark'' then Inl (Error ''no routing table'')
                      else Inr (PeerChan lab_peers True), w)),
      totp_Now = (\<lambda>key digits interval w. (replicate (nat digits) CHR ''7'', w))\<rparr>"

definition lab_world :: world where
  "lab_world = \<lparr>online = [], made = 0\<rparr>"

lemmas lab_defs = lab_def lab_parse_def lab_peers_def lab_world_def NewDHT_def

section \<open>Properties\<close>

subsection \<open>The loop over the discovered peers\<close>

lemma range_peerChan_out:
  "fst (range_peerChan env lg ps closed w) = (if closed then Returned () else Blocked ChanRecv)"
  by (induction ps arbitrary: w) (auto simp add: case_prod_unfold)

lemma range_peerChan_examined:
  "examined (fst (snd (range_peerChan env lg ps closed w))) =
     map ID (filter (\<lambda>p. ID p \<noteq> host_ID env \<and> Addrs p \<noteq> []) ps)"
  by (induction ps arbitrary: w) (auto simp add: case_prod_unfold)

lemma range_peerChan_dialed:
  "p \<in> set (dialed (fst (snd (range_peerChan env lg ps closed w)))) \<Longrightarrow>
     ID p \<noteq> host_ID env \<and> Addrs p \<noteq> []"
  by (induction ps arbitrary: w) (auto simp add: case_prod_unfold split: if_splits)

lemma range_peerChan_guarded:
  "guarded M (fst (snd (range_peerChan env lg ps closed w)))"
  by (induction ps arbitrary: w M) (auto simp add: case_prod_unfold)

lemma range_peerChan_failures:
  "failure_logs (fst (snd (range_peerChan env lg ps closed w))) =
     failed_dials (fst (snd (range_peerChan env lg ps closed w)))"
  by (induction ps arbitrary: w) (auto simp add: case_prod_unfold)

text \<open>
  C1. \<^verbatim>\<open>announceAndConnect\<close> returns an error exactly when \<^verbatim>\<open>FindPeers\<close> fails.
  When the lookup starts, a failed connection changes nothing in how the call ends: it
  returns nil once the channel is closed, every delivered peer that is not skipped has
  its connectedness asked, in the order of delivery, and each failed connection is
  logged.
\<close>

theorem announceAndConnect_error_iff:
  assumes "console d = Some lg"
    and "announceAndConnect env d kademliaDHT rv w = (out, evs, w')"
    and "fst (FindPeers env kademliaDHT rv (discovery_Advertise env kademliaDHT rv w)) = found"
  shows "((\<exists>err. out = Returned (Some err)) = (\<exists>err. found = Inl err)) \<and>
         (\<forall>peerChan. found = Inr peerChan \<longrightarrow>
            out = (if closes peerChan then Returned None else Blocked ChanRecv) \<and>
            examined evs =
              map ID (filter (\<lambda>p. ID p \<noteq> host_ID env \<and> Addrs p \<noteq> []) (received peerChan)) \<and>
            failure_logs evs = failed_dials evs)"
proof (cases found)
  case (Inl err)
  then show ?thesis
    using assms by (auto simp: announceAndConnect_def case_prod_unfold)
next
  case (Inr peerChan)
  let ?w2 = "snd (FindPeers env kademliaDHT rv (discovery_Advertise env kademliaDHT rv w))"
  let ?loop = "range_peerChan env lg (received peerChan) (closes peerChan) ?w2"
  have out: "out = (case fst ?loop of Returned u \<Rightarrow> Returned None | Panicked \<Rightarrow> Panicked
                    | Blocked b \<Rightarrow> Blocked b)"
    and evs: "evs = [Debug lg ''Announcing ourselves...'' None, CallAdvertise kademliaDHT rv,
                     Debug lg ''Successfully announced!'' None,
                     Debug lg ''Searching for other peers...'' None,
                     CallFindPeers kademliaDHT rv None] @ fst (snd ?loop)"
    using assms Inr by (auto simp: announceAndConnect_def case_prod_unfold)
  have "out = (if closes peerChan then Returned None else Blocked ChanRecv)"
    unfolding out by (simp add: range_peerChan_out)
  moreover have "examined evs =
      map ID (filter (\<lambda>p. ID p \<noteq> host_ID env \<and> Addrs p \<noteq> []) (received peerChan))"
    unfolding evs by (simp add: range_peerChan_examined)
  moreover have "failure_logs evs = failed_dials evs"
    unfolding evs by (simp add: range_peerChan_failures)
  ultimately show ?thesis using Inr by auto
qed

theorem announceAndConnect_error_iff_witness:
  "console ((NewDHT [])\<lparr>console := Some 7\<rparr>) = Some 7 \<and>
   fst (announceAndConnect lab ((NewDHT [])\<lparr>console := Some 7\<rparr>) 0 ''room'' lab_world) =
     Returned None \<and>
   examined (fst (snd
     (announceAndConnect lab ((NewDHT [])\<lparr>console := Some 7\<rparr>) 0 ''room'' lab_world))) =
     [''down'', ''boot'', ''peer''] \<and>
   failed_dials (fst (snd
     (announceAndConnect lab ((NewDHT [])\<lparr>console := Some 7\<rparr>) 0 ''room'' lab_world))) =
     [\<lparr>ID = ''down'', Addrs = [''/ip4/10.0.0.3'']\<rparr>] \<and>
   fst (announceAndConnect lab ((NewDHT [])\<lparr>console := Some 7\<rparr>) 0 ''dark'' lab_world) =
     Returned (Some (Error ''no routing table''))"
proof -
  let ?d = "(NewDHT [])\<lparr>console := Some 7\<rparr>"
  let ?r = "announceAndConnect lab ?d 0 ''room'' lab_world"
  have c: "console ?d = Some 7" by simp
  have r: "?r = (fst ?r, fst (snd ?r), snd (snd ?r))" by simp
  have f: "fst (FindPeers lab 0 ''room'' (discovery_Advertise lab 0 ''room'' lab_world)) =
             Inr (PeerChan lab_peers True)"
    by (simp add: lab_def)
  have "fst ?r = Returned None \<and> examined (fst (snd ?r)) = [''down'', ''boot'', ''peer'']"
    using announceAndConnect_error_iff [OF c r f] by (simp add: lab_defs)
  moreover have "failed_dials (fst (snd ?r)) = [\<lparr>ID = ''down'', Addrs = [''/ip4/10.0.0.3'']\<rparr>]"
    by (simp add: lab_defs announceAndConnect_def)
  moreover have "fst (announceAndConnect lab ?d 0 ''dark'' lab_world) =
                   Returned (Some (Error ''no routing table''))"
    by (simp add: lab_defs announceAndConnect_def)
  ultimately show ?thesis using c by simp
qed

subsection \<open>The goroutines of the bootstrap pass\<close>

lemma pending_Dialing_mem: "i < length ws \<Longrightarrow> ws ! i = Dialing p \<Longrightarrow> ID p \<in># pending ws"
proof (induction ws arbitrary: i)
  case (Cons g ws)
  then show ?case by (cases i; cases g) auto
qed simp

lemma pending_update_Spawned:
  "i < length ws \<Longrightarrow> ws ! i = Spawned x \<Longrightarrow>
     pending (ws[i := g]) =
       (case g of Dialing p \<Rightarrow> add_mset (ID p) (pending ws) | _ \<Rightarrow> pending ws)"
proof (induction ws arbitrary: i)
  case (Cons h ws)
  then show ?case by (cases i; cases h; cases g) auto
qed simp

lemma pending_update_Dialing:
  "i < length ws \<Longrightarrow> ws ! i = Dialing p \<Longrightarrow>
     pending (ws[i := Exited]) = pending ws - {#ID p#}"
proof (induction ws arbitrary: i)
  case (Cons h ws)
  then show ?case by (cases i; cases h) (auto dest: pending_Dialing_mem)
qed simp

lemma run_workers_guarded:
  "guarded (pending ws + N) (fst (snd (run_workers env c sched ws w)))"
proof (induction sched arbitrary: ws w N)
  case Nil
  then show ?case by simp
next
  case (Cons i sched)
  show ?case
  proof (cases "i < length ws")
    case False
    then show ?thesis using Cons by simp
  next
    case True
    show ?thesis
    proof (cases "ws ! i")
      case (Spawned x)
      show ?thesis
      proof (cases x)
        case None
        then show ?thesis using True Spawned by simp
      next
        case (Some peerinfo)
        have a: "guarded (add_mset (ID peerinfo) (pending ws + N))
                  (fst (snd (run_workers env c sched (ws[i := Dialing peerinfo]) w')))" for w'
          using Cons.IH[of "ws[i := Dialing peerinfo]" N w']
          by (simp add: pending_update_Spawned[OF True Spawned])
        have b: "guarded (pending ws + N)
                  (fst (snd (run_workers env c sched (ws[i := Exited]) w')))" for w'
          using Cons.IH[of "ws[i := Exited]" N w']
          by (simp add: pending_update_Spawned[OF True Spawned])
        show ?thesis
          using True Spawned Some a b by (simp add: case_prod_unfold)
      qed
    next
      case (Dialing p)
      have mem: "ID p \<in># pending ws"
        using pending_Dialing_mem[OF True Dialing] .
      have eq: "pending ws + N - {#ID p#} = pending (ws[i := Exited]) + N"
        using mem by (simp add: pending_update_Dialing[OF True Dialing])
      show ?thesis
        using True Dialing mem Cons.IH[of "ws[i := Exited]" N] eq
        by (auto simp: case_prod_unfold split: option.splits error.splits)
    next
      case Exited
      then have "ws[i := Exited] = ws" using True by (metis list_update_id)
      then show ?thesis using True Exited Cons by (simp add: case_prod_unfold)
    qed
  qed
qed

lemma pending_spawn: "pending (map (spawn env) as) = {#}"
  by (induction as) (auto simp: spawn_def)

lemma run_workers_nil_pointer:
  "j < length ws \<Longrightarrow> ws ! j = Spawned None \<Longrightarrow>
     fst (run_workers env c sched ws w) \<noteq> Returned () \<and>
     (j \<in> set sched \<longrightarrow> fst (run_workers env c sched ws w) = Panicked)"
proof (induction sched arbitrary: ws w)
  case Nil
  then have "Spawned None \<in> set ws" by (metis nth_mem)
  then show ?case by (auto simp: list_all_iff)
next
  case (Cons i sched)
  show ?case
  proof (cases "i = j")
    case True
    then show ?thesis using Cons.prems by simp
  next
    case False
    then have "\<And>g. j < length (ws[i := g]) \<and> ws[i := g] ! j = Spawned None"
      using Cons.prems by simp
    then show ?thesis
      using False Cons.IH Cons.prems
      by (auto simp: case_prod_unfold split: option.splits)
  qed
qed

text \<open>
  The bootstrap pass can return: when every address parses, the schedule that runs
  the goroutines one after the other lets \<^verbatim>\<open>wg.Wait\<close> return.
\<close>

lemma worker_step_twice:
  "\<exists>g ev1 w1 ev2 w2.
     worker_step env c (Spawned (Some p)) w = (Some g, ev1, w1) \<and>
     worker_step env c g w1 = (Some Exited, ev2, w2)"
  by (auto simp: case_prod_unfold split: option.splits error.splits)

lemma run_workers_in_turn:
  "fst (run_workers env c (concat (map (\<lambda>i. [i, i]) [k..<k + length ps]))
          (replicate k Exited @ map (\<lambda>p. Spawned (Some p)) ps) w) = Returned ()"
proof (induction ps arbitrary: k w)
  case Nil
  then show ?case by (simp add: list_all_iff)
next
  case (Cons p ps)
  let ?ws = "replicate k Exited @ map (\<lambda>p. Spawned (Some p)) (p # ps)"
  obtain g ev1 w1 ev2 w2 where
    s1: "worker_step env c (Spawned (Some p)) w = (Some g, ev1, w1)" and
    s2: "worker_step env c g w1 = (Some Exited, ev2, w2)"
    using worker_step_twice[of env c p w] by blast
  have up: "[k..<k + length (p # ps)] = k # [Suc k..<Suc k + length ps]"
    by (simp add: upt_rec)
  have n: "?ws ! k = Spawned (Some p)" "k < length ?ws"
    by (simp_all add: nth_append)
  have u1: "?ws[k := g] ! k = g" "k < length (?ws[k := g])"
    by simp_all
  have u3: "?ws[k := Exited] =
            replicate (Suc k) Exited @ map (\<lambda>p. Spawned (Some p)) ps"
    by (simp add: list_update_append replicate_append_same)
  show ?case
    unfolding up
    using n u1 s1 s2 Cons.IH[of "Suc k" w2] u3
    by (simp add: case_prod_unfold del: replicate_Suc upt_Suc worker_step.simps list_update.simps)
qed

lemma bootstrapPeers_in_turn:
  assumes "\<forall>a \<in> set (BootstrapPeers d). \<exists>p. peer_AddrInfoFromP2pAddr env a = Inr p"
  shows "fst (bootstrapPeers env c (in_turn (length (BootstrapPeers d))) d w) = Returned ()"
proof -
  have "map (spawn env) (BootstrapPeers d) =
        map (\<lambda>p. Spawned (Some p))
          (map (\<lambda>a. case peer_AddrInfoFromP2pAddr env a of Inr p \<Rightarrow> p) (BootstrapPeers d))"
    using assms by (auto simp: spawn_def)
  then have "bootstrapPeers env c (in_turn (length (BootstrapPeers d))) d w =
        run_workers env c (concat (map (\<lambda>i. [i, i]) [0..<length (BootstrapPeers d)]))
          (map (\<lambda>p. Spawned (Some p))
            (map (\<lambda>a. case peer_AddrInfoFromP2pAddr env a of Inr p \<Rightarrow> p) (BootstrapPeers d))) w"
    by (simp only: bootstrapPeers_def in_turn_def)
  then show ?thesis
    using run_workers_in_turn[of env c 0
        "map (\<lambda>a. case peer_AddrInfoFromP2pAddr env a of Inr p \<Rightarrow> p) (BootstrapPeers d)" w]
    by simp
qed

text \<open>
  An address that does not parse never lets the bootstrap pass return, whatever the
  schedule; once its goroutine runs, the process panics.
\<close>

lemma bootstrapPeers_unparsed_entry:
  assumes "j < length (BootstrapPeers d)"
    and "peer_AddrInfoFromP2pAddr env (BootstrapPeers d ! j) = Inl err"
  shows "fst (bootstrapPeers env c sched d w) \<noteq> Returned () \<and>
         (j \<in> set sched \<longrightarrow> fst (bootstrapPeers env c sched d w) = Panicked)"
proof -
  have "map (spawn env) (BootstrapPeers d) ! j = Spawned None"
    using assms by (simp add: spawn_def)
  then show ?thesis
    unfolding bootstrapPeers_def
    using run_workers_nil_pointer[of j "map (spawn env) (BootstrapPeers d)"] assms(1)
    by simp
qed

text \<open>
  C3. The code does not skip a bootstrap address that fails to parse. With the list
  \<open>[/ip4/10.0.0.1/p2p/boot, /ip4/10.0.0.5/tcp/4001]\<close>, whose second entry names no
  peer, the goroutine of the first entry connects and the goroutine of the second one
  panics at line 150.
\<close>

theorem bootstrapPeers_malformed_entry_panics:
  "bootstrapPeers lab 7 [0, 0, 1]
     ((NewDHT [])\<lparr>BootstrapPeers := [''/ip4/10.0.0.1/p2p/boot'', ''/ip4/10.0.0.5/tcp/4001'']\<rparr>)
     lab_world =
   (Panicked,
    [CallConnectedness ''boot'' NotConnected,
     CallConnect \<lparr>ID = ''boot'', Addrs = [''/ip4/10.0.0.1'']\<rparr> None,
     Debug 7 ''Connection established with bootstrap node:''
       (Some \<lparr>ID = ''boot'', Addrs = [''/ip4/10.0.0.1'']\<rparr>)],
    lab_world\<lparr>online := [''boot'']\<rparr>)"
  by (simp add: lab_defs bootstrapPeers_def spawn_def)

lemma worker_ids_append: "worker_ids (xs @ ys) = worker_ids xs @ worker_ids ys"
  by (induction xs rule: worker_ids.induct) auto

lemma Dialing_worker_ids: "Dialing q \<in> set xs \<Longrightarrow> ID q \<in> set (worker_ids xs)"
  by (induction xs rule: worker_ids.induct) auto

lemma range_peerChan_latest_guarded:
  "latest_guarded m (fst (snd (range_peerChan env lg ps closed w)))"
  by (induction ps arbitrary: w m) (auto simp add: case_prod_unfold)

lemma run_workers_latest_guarded:
  "distinct (worker_ids ws) \<Longrightarrow>
   (\<forall>q. Dialing q \<in> set ws \<longrightarrow> (\<exists>cn. m (ID q) = Some cn \<and> cn \<noteq> Connected)) \<Longrightarrow>
   latest_guarded m (fst (snd (run_workers env c sched ws w)))"
proof (induction sched arbitrary: ws w m)
  case Nil
  then show ?case by simp
next
  case (Cons i sched)
  show ?case
  proof (cases "i < length ws")
    case False
    then show ?thesis using Cons by simp
  next
    case True
    define A where "A = take i ws"
    define B where "B = drop (Suc i) ws"
    have ws: "ws = A @ ws ! i # B"
      unfolding A_def B_def using True by (simp add: id_take_nth_drop)
    have upd: "ws[i := g] = A @ g # B" for g
      unfolding A_def B_def using True by (simp add: upd_conv_take_nth_drop)
    show ?thesis
    proof (cases "ws ! i")
      case (Spawned x)
      show ?thesis
      proof (cases x)
        case None
        then show ?thesis using True Spawned by simp
      next
        case (Some p)
        have d: "distinct (worker_ids A @ ID p # worker_ids B)"
          using Cons.prems(1) ws Spawned Some by (metis worker_ids_append worker_ids.simps(2))
        have others: "m' (ID q) = m (ID q)"
          if "Dialing q \<in> set A \<union> set B" and "\<And>k. k \<noteq> ID p \<Longrightarrow> m' k = m k" for q m'
        proof -
          have "ID q \<in> set (worker_ids A) \<union> set (worker_ids B)"
            using that(1) Dialing_worker_ids by auto
          then have "ID q \<noteq> ID p" using d by auto
          then show ?thesis using that(2) by simp
        qed
        have old: "\<exists>cn. m (ID q) = Some cn \<and> cn \<noteq> Connected" if "Dialing q \<in> set A \<union> set B" for q
          using Cons.prems(2) that ws by (metis Un_iff set_append list.set_intros(2))
        have step: "latest_guarded (m(ID p := Some cn))
                      (fst (snd (run_workers env c sched
                         (ws[i := (if cn \<noteq> Connected then Dialing p else Exited)]) w')))"
          for cn w'
        proof (rule Cons.IH)
          show "distinct (worker_ids (ws[i := (if cn \<noteq> Connected then Dialing p else Exited)]))"
            using d by (auto simp: upd worker_ids_append)
          show "\<forall>q. Dialing q \<in> set (ws[i := (if cn \<noteq> Connected then Dialing p else Exited)]) \<longrightarrow>
                  (\<exists>cna. (m(ID p := Some cn)) (ID q) = Some cna \<and> cna \<noteq> Connected)"
          proof (intro allI impI)
            fix q
            assume q: "Dialing q \<in> set (ws[i := (if cn \<noteq> Connected then Dialing p else Exited)])"
            then consider "q = p \<and> cn \<noteq> Connected" | "Dialing q \<in> set A \<union> set B"
              by (auto simp: upd split: if_splits)
            then show "\<exists>cna. (m(ID p := Some cn)) (ID q) = Some cna \<and> cna \<noteq> Connected"
            proof cases
              case 1
              then show ?thesis by simp
            next
              case 2
              then show ?thesis
                using others[OF 2, of "m(ID p := Some cn)"] old[OF 2] by simp
            qed
          qed
        qed
        show ?thesis
          using True Spawned Some step by (simp add: case_prod_unfold)
      qed
    next
      case (Dialing p)
      have d: "distinct (worker_ids A @ ID p # worker_ids B)"
        using Cons.prems(1) ws Dialing by (metis worker_ids_append worker_ids.simps(3))
      have mem: "\<exists>cn. m (ID p) = Some cn \<and> cn \<noteq> Connected"
        using Cons.prems(2) Dialing True by (metis nth_mem)
      have step: "latest_guarded (m(ID p := None))
                    (fst (snd (run_workers env c sched (ws[i := Exited]) w')))" for w'
      proof (rule Cons.IH)
        show "distinct (worker_ids (ws[i := Exited]))"
          using d by (auto simp: upd worker_ids_append)
        show "\<forall>q. Dialing q \<in> set (ws[i := Exited]) \<longrightarrow>
                (\<exists>cn. (m(ID p := None)) (ID q) = Some cn \<and> cn \<noteq> Connected)"
        proof (intro allI impI)
          fix q
          assume "Dialing q \<in> set (ws[i := Exited])"
          then have q: "Dialing q \<in> set A \<union> set B" by (auto simp: upd)
          then have "ID q \<in> set (worker_ids A) \<union> set (worker_ids B)"
            using Dialing_worker_ids by auto
          then have "ID q \<noteq> ID p" using d by auto
          moreover have "\<exists>cn. m (ID q) = Some cn \<and> cn \<noteq> Connected"
            using Cons.prems(2) q ws by (metis Un_iff set_append list.set_intros(2))
          ultimately show "\<exists>cn. (m(ID p := None)) (ID q) = Some cn \<and> cn \<noteq> Connected"
            by simp
        qed
      qed
      show ?thesis
        using True Dialing mem step
        by (auto simp: case_prod_unfold split: option.splits error.splits)
    next
      case Exited
      then have "ws[i := Exited] = ws" using True by (metis list_update_id)
      then show ?thesis using True Exited Cons by (simp add: case_prod_unfold)
    qed
  qed
qed

text \<open>
  C7 as stated fails for the bootstrap pass. With three entries for the peer
  \<open>boot\<close>, the first two goroutines both see it not connected, the second one
  connects, the third one is told \<^verbatim>\<open>Connected\<close> and leaves, and then the first one
  calls \<^verbatim>\<open>host.Connect\<close> on \<open>boot\<close> after that answer: lines 150 and 151 are two
  steps, and nothing orders the goroutines of one peer.
\<close>

theorem bootstrapPeers_dials_after_Connected_counterexample:
  "bootstrapPeers lab 7 [0, 1, 1, 2, 0]
     ((NewDHT [])\<lparr>BootstrapPeers :=
        [''/ip4/10.0.0.1/p2p/boot'', ''/ip4/10.0.0.1/p2p/boot'', ''/ip4/10.0.0.1/p2p/boot'']\<rparr>)
     lab_world =
   (Returned (),
    [CallConnectedness ''boot'' NotConnected,
     CallConnectedness ''boot'' NotConnected,
     CallConnect \<lparr>ID = ''boot'', Addrs = [''/ip4/10.0.0.1'']\<rparr> None,
     Debug 7 ''Connection established with bootstrap node:''
       (Some \<lparr>ID = ''boot'', Addrs = [''/ip4/10.0.0.1'']\<rparr>),
     CallConnectedness ''boot'' Connected,
     CallConnect \<lparr>ID = ''boot'', Addrs = [''/ip4/10.0.0.1'']\<rparr> None,
     Debug 7 ''Connection established with bootstrap node:''
       (Some \<lparr>ID = ''boot'', Addrs = [''/ip4/10.0.0.1'']\<rparr>)],
    lab_world\<lparr>online := [''boot'', ''boot'']\<rparr>) \<and>
   \<not> latest_guarded (\<lambda>pid. None)
     (fst (snd (bootstrapPeers lab 7 [0, 1, 1, 2, 0]
        ((NewDHT [])\<lparr>BootstrapPeers :=
           [''/ip4/10.0.0.1/p2p/boot'', ''/ip4/10.0.0.1/p2p/boot'', ''/ip4/10.0.0.1/p2p/boot'']\<rparr>)
        lab_world)))"
  by (simp add: lab_defs bootstrapPeers_def spawn_def)

text \<open>
  C7, as the code has it. In the announce pass, and in the bootstrap pass under every
  schedule when no two bootstrap addresses name the same peer, every call of
  \<^verbatim>\<open>host.Connect\<close> finds the last answer of \<^verbatim>\<open>Connectedness\<close> for its peer not
  \<^verbatim>\<open>Connected\<close>: a peer reported \<^verbatim>\<open>Connected\<close> is skipped. In the bootstrap pass
  in general, every call of \<^verbatim>\<open>host.Connect\<close> uses up one earlier answer for the same
  peer that was not \<^verbatim>\<open>Connected\<close> (the one its own goroutine got), so a goroutine
  that is told \<^verbatim>\<open>Connected\<close> makes no call.
\<close>

theorem connect_follows_not_connected_report:
  "guarded {#} (fst (snd (bootstrapPeers env c sched d w))) \<and>
   (distinct (worker_ids (map (spawn env) (BootstrapPeers d))) \<longrightarrow>
      latest_guarded (\<lambda>pid. None) (fst (snd (bootstrapPeers env c sched d w)))) \<and>
   guarded {#} (fst (snd (announceAndConnect env d kademliaDHT rv w))) \<and>
   latest_guarded (\<lambda>pid. None) (fst (snd (announceAndConnect env d kademliaDHT rv w)))"
proof (intro conjI impI)
  show "guarded {#} (fst (snd (bootstrapPeers env c sched d w)))"
    using run_workers_guarded[of "map (spawn env) (BootstrapPeers d)" "{#}" env c sched w]
    by (simp add: bootstrapPeers_def pending_spawn)
  show "guarded {#} (fst (snd (announceAndConnect env d kademliaDHT rv w)))"
    by (simp add: announceAndConnect_def case_prod_unfold range_peerChan_guarded
             split: option.splits sum.splits)
  show "latest_guarded (\<lambda>pid. None) (fst (snd (announceAndConnect env d kademliaDHT rv w)))"
    by (simp add: announceAndConnect_def case_prod_unfold range_peerChan_latest_guarded
             split: option.splits sum.splits)
  assume "distinct (worker_ids (map (spawn env) (BootstrapPeers d)))"
  then show "latest_guarded (\<lambda>pid. None) (fst (snd (bootstrapPeers env c sched d w)))"
    unfolding bootstrapPeers_def
    by (rule run_workers_latest_guarded) (auto simp: spawn_def)
qed

theorem connect_follows_not_connected_report_witness:
  "distinct (worker_ids (map (spawn lab)
      (BootstrapPeers ((NewDHT [])\<lparr>BootstrapPeers :=
         [''/ip4/10.0.0.1/p2p/boot'', ''/ip4/10.0.0.2/p2p/seed'']\<rparr>)))) \<and>
   latest_guarded (\<lambda>pid. None) (fst (snd (bootstrapPeers lab 7 [1, 0, 1, 0]
      ((NewDHT [])\<lparr>BootstrapPeers := [''/ip4/10.0.0.1/p2p/boot'', ''/ip4/10.0.0.2/p2p/seed'']\<rparr>)
      (lab_world\<lparr>online := [''seed'']\<rparr>)))) \<and>
   guarded {#} (fst (snd (bootstrapPeers lab 7 [1, 0, 1, 0]
      ((NewDHT [])\<lparr>BootstrapPeers := [''/ip4/10.0.0.1/p2p/boot'', ''/ip4/10.0.0.2/p2p/seed'']\<rparr>)
      (lab_world\<lparr>online := [''seed'']\<rparr>)))) \<and>
   examined (fst (snd (bootstrapPeers lab 7 [1, 0, 1, 0]
      ((NewDHT [])\<lparr>BootstrapPeers := [''/ip4/10.0.0.1/p2p/boot'', ''/ip4/10.0.0.2/p2p/seed'']\<rparr>)
      (lab_world\<lparr>online := [''seed'']\<rparr>)))) = [''seed'', ''boot''] \<and>
   dialed (fst (snd (bootstrapPeers lab 7 [1, 0, 1, 0]
      ((NewDHT [])\<lparr>BootstrapPeers := [''/ip4/10.0.0.1/p2p/boot'', ''/ip4/10.0.0.2/p2p/seed'']\<rparr>)
      (lab_world\<lparr>online := [''seed'']\<rparr>)))) =
     [\<lparr>ID = ''boot'', Addrs = [''/ip4/10.0.0.1'']\<rparr>] \<and>
   latest_guarded (\<lambda>pid. None)
     (fst (snd (announceAndConnect lab ((NewDHT [])\<lparr>console := Some 7\<rparr>) 0 ''room''
        (lab_world\<lparr>online := [''peer'']\<rparr>)))) \<and>
   dialed (fst (snd (announceAndConnect lab ((NewDHT [])\<lparr>console := Some 7\<rparr>) 0 ''room''
      (lab_world\<lparr>online := [''peer'']\<rparr>)))) =
     [\<lparr>ID = ''down'', Addrs = [''/ip4/10.0.0.3'']\<rparr>, \<lparr>ID = ''boot'', Addrs = [''/ip4/10.0.0.1'']\<rparr>]"
proof -
  let ?d = "(NewDHT [])\<lparr>BootstrapPeers :=
              [''/ip4/10.0.0.1/p2p/boot'', ''/ip4/10.0.0.2/p2p/seed'']\<rparr>"
  let ?w = "lab_world\<lparr>online := [''seed'']\<rparr>"
  let ?a = "(NewDHT [])\<lparr>console := Some 7\<rparr>"
  let ?v = "lab_world\<lparr>online := [''peer'']\<rparr>"
  have dist: "distinct (worker_ids (map (spawn lab) (BootstrapPeers ?d)))"
    by (simp add: lab_defs spawn_def)
  note t = connect_follows_not_connected_report [of lab 7 "[1, 0, 1, 0]" ?d ?w 0 "''room''"]
  note u = connect_follows_not_connected_report [of lab 7 "[]" ?a ?v 0 "''room''"]
  have b: "latest_guarded (\<lambda>pid. None) (fst (snd (bootstrapPeers lab 7 [1, 0, 1, 0] ?d ?w))) \<and>
           guarded {#} (fst (snd (bootstrapPeers lab 7 [1, 0, 1, 0] ?d ?w))) \<and>
           latest_guarded (\<lambda>pid. None) (fst (snd (announceAndConnect lab ?a 0 ''room'' ?v)))"
    using t u dist by blast
  have e: "examined (fst (snd (bootstrapPeers lab 7 [1, 0, 1, 0] ?d ?w))) = [''seed'', ''boot''] \<and>
           dialed (fst (snd (bootstrapPeers lab 7 [1, 0, 1, 0] ?d ?w))) =
             [\<lparr>ID = ''boot'', Addrs = [''/ip4/10.0.0.1'']\<rparr>]"
    by (simp add: lab_defs bootstrapPeers_def spawn_def)
  have f: "dialed (fst (snd (announceAndConnect lab ?a 0 ''room'' ?v))) =
     [\<lparr>ID = ''down'', Addrs = [''/ip4/10.0.0.3'']\<rparr>, \<lparr>ID = ''boot'', Addrs = [''/ip4/10.0.0.1'']\<rparr>]"
    by (simp add: lab_defs announceAndConnect_def)
  show ?thesis using dist b e f by blast
qed

text \<open>
  C8. \<^verbatim>\<open>announceAndConnect\<close> calls \<^verbatim>\<open>host.Connect\<close> on no peer that has the host's
  own identity or no address. Skipping such a peer does not end the loop: the peers
  whose connectedness is asked are all the other peers delivered, in order.
\<close>

theorem announceAndConnect_skips_self_and_addressless:
  assumes "announceAndConnect env d kademliaDHT rv w = (out, evs, w')"
  shows "(\<forall>p \<in> set (dialed evs). ID p \<noteq> host_ID env \<and> Addrs p \<noteq> []) \<and>
         (\<forall>peerChan.
            console d \<noteq> None \<and>
            fst (FindPeers env kademliaDHT rv (discovery_Advertise env kademliaDHT rv w)) =
              Inr peerChan \<longrightarrow>
            examined evs =
              map ID (filter (\<lambda>p. \<not> (ID p = host_ID env \<or> Addrs p = [])) (received peerChan)))"
  using assms
  by (auto simp: announceAndConnect_def case_prod_unfold range_peerChan_examined
           split: option.splits sum.splits dest: range_peerChan_dialed)

theorem announceAndConnect_skips_self_and_addressless_witness:
  "dialed (fst (snd (announceAndConnect lab ((NewDHT [])\<lparr>console := Some 7\<rparr>) 0 ''room''
      lab_world))) =
     [\<lparr>ID = ''down'', Addrs = [''/ip4/10.0.0.3'']\<rparr>,
      \<lparr>ID = ''boot'', Addrs = [''/ip4/10.0.0.1'']\<rparr>,
      \<lparr>ID = ''peer'', Addrs = [''/ip4/10.0.0.4'']\<rparr>] \<and>
   list_all (\<lambda>p. ID p \<noteq> host_ID lab \<and> Addrs p \<noteq> [])
     (dialed (fst (snd (announceAndConnect lab ((NewDHT [])\<lparr>console := Some 7\<rparr>) 0 ''room''
        lab_world)))) \<and>
   examined (fst (snd (announceAndConnect lab ((NewDHT [])\<lparr>console := Some 7\<rparr>) 0 ''room''
      lab_world))) = [''down'', ''boot'', ''peer'']"
proof -
  let ?d = "(NewDHT [])\<lparr>console := Some 7\<rparr>"
  let ?r = "announceAndConnect lab ?d 0 ''room'' lab_world"
  have r: "?r = (fst ?r, fst (snd ?r), snd (snd ?r))" by simp
  have f: "console ?d \<noteq> None \<and>
           fst (FindPeers lab 0 ''room'' (discovery_Advertise lab 0 ''room'' lab_world)) =
             Inr (PeerChan lab_peers True)"
    by (simp add: lab_def)
  note t = announceAndConnect_skips_self_and_addressless [OF r]
  have "list_all (\<lambda>p. ID p \<noteq> host_ID lab \<and> Addrs p \<noteq> []) (dialed (fst (snd ?r)))"
    using t by (simp add: list_all_iff)
  moreover have "examined (fst (snd ?r)) = [''down'', ''boot'', ''peer'']"
    using t f by (simp add: lab_defs)
  moreover have "dialed (fst (snd ?r)) =
     [\<lparr>ID = ''down'', Addrs = [''/ip4/10.0.0.3'']\<rparr>,
      \<lparr>ID = ''boot'', Addrs = [''/ip4/10.0.0.1'']\<rparr>,
      \<lparr>ID = ''peer'', Addrs = [''/ip4/10.0.0.4'']\<rparr>]"
    by (simp add: lab_defs announceAndConnect_def)
  ultimately show ?thesis by simp
qed

subsection \<open>\<^verbatim>\<open>startDHT\<close> and \<^verbatim>\<open>Run\<close>\<close>

lemma startDHT_never_nil_nil: "fst (startDHT env d w) \<noteq> (None, None)"
  by (auto simp: startDHT_def split: prod.splits sum.splits)

lemma created_append: "created (xs @ ys) = created xs @ created ys"
  by (induction xs rule: created.induct) auto

lemma startDHT_alone:
  "startDHT_threads env [0, 0, 0] [AtCheck] d w =
     (case startDHT env d w of ((h, e), d1, evs, w1) \<Rightarrow> ([Finished h e], d1, evs, w1))"
  by (auto simp: startDHT_def split: prod.splits sum.splits)

lemma startDHT_once:
  assumes "startDHT env d w = ((h, e), d1, ev1, w1)"
  shows "(h = None \<or> h = dht d1) \<and> length (created ev1) \<le> 1 \<and>
         (dht d1 = None \<longrightarrow> created ev1 = []) \<and>
         (dht d \<noteq> None \<longrightarrow> dht d1 = dht d \<and> created ev1 = [])"
  using assms by (auto simp: startDHT_def split: if_splits prod.splits sum.splits)

lemma Run_once:
  assumes "Run env c d w = (out, d1, ev1, w1)"
  shows "(\<forall>kad. out = Returned (ReturnNil kad) \<longrightarrow> Some kad = dht d1) \<and>
         length (created ev1) \<le> 1 \<and>
         (dht d1 = None \<longrightarrow> created ev1 = []) \<and>
         (dht d \<noteq> None \<longrightarrow> dht d1 = dht d \<and> created ev1 = [])"
proof -
  obtain h e d4 ev4 w4 where s: "startDHT env (Run_defaults env c d) w = ((h, e), d4, ev4, w4)"
    by (metis prod.collapse)
  have dd: "dht (Run_defaults env c d) = dht d"
    by (simp add: Run_defaults_def Let_def)
  note o = startDHT_once [OF s, unfolded dd]
  show ?thesis
    using assms s o
    by (auto simp: Run_def created_append split: option.splits prod.splits)
qed

text \<open>
  C2, as the code has it. \<^verbatim>\<open>Run\<close> always returns; it returns an error exactly when
  \<^verbatim>\<open>startDHT\<close> returns one or, the handle made, \<^verbatim>\<open>Bootstrap\<close> on it returns one;
  otherwise it returns nil and has started the goroutine.
\<close>

theorem Run_error_iff:
  assumes "Run env c d w = (out, d', evs, w')"
    and "startDHT env (Run_defaults env c d) w = ((h, e), d4, ev1, w1)"
  shows "((\<exists>err. out = Returned (ReturnErr err)) =
            (e \<noteq> None \<or> (\<exists>kad. h = Some kad \<and> fst (dht_Bootstrap env kad w1) \<noteq> None))) \<and>
         ((\<exists>kad. out = Returned (ReturnNil kad)) =
            (e = None \<and> (\<exists>kad. h = Some kad \<and> fst (dht_Bootstrap env kad w1) = None))) \<and>
         out \<noteq> Panicked \<and> (\<forall>b. out \<noteq> Blocked b)"
proof -
  have "(h, e) \<noteq> (None, None)"
    using startDHT_never_nil_nil[of env "Run_defaults env c d" w] assms(2) by simp
  then show ?thesis
    using assms
    by (cases e; cases h; cases "dht_Bootstrap env (the h) w1"; cases "fst (dht_Bootstrap env (the h) w1)")
       (auto simp: Run_def)
qed

theorem Run_error_iff_witness:
  "fst (Run lab 7 (NewDHT []) lab_world) = Returned (ReturnNil 0) \<and>
   fst (startDHT lab (Run_defaults lab 7 (NewDHT [])) lab_world) = (Some 0, None) \<and>
   fst (dht_Bootstrap lab 0 (lab_world\<lparr>made := 1\<rparr>)) = None"
proof -
  let ?r = "Run lab 7 (NewDHT []) lab_world"
  have r: "?r = (fst ?r, fst (snd ?r), fst (snd (snd ?r)), snd (snd (snd ?r)))" by simp
  have s: "startDHT lab (Run_defaults lab 7 (NewDHT [])) lab_world =
             ((Some 0, None),
              (Run_defaults lab 7 (NewDHT []))\<lparr>dht := Some 0\<rparr>,
              [CallNew [] (Inr 0)], lab_world\<lparr>made := 1\<rparr>)"
    by (simp add: startDHT_def Run_defaults_def lab_defs)
  have b: "fst (dht_Bootstrap lab 0 (lab_world\<lparr>made := 1\<rparr>)) = None"
    by (simp add: lab_def)
  have "\<exists>kad. fst ?r = Returned (ReturnNil kad)"
    using Run_error_iff [OF r s] b by simp
  moreover have "fst ?r = Returned (ReturnNil 0)"
    by (simp add: Run_def Run_defaults_def startDHT_def lab_defs)
  ultimately show ?thesis using s b by simp
qed

text \<open>
  C2 as stated fails: with a routing substrate whose \<^verbatim>\<open>Bootstrap\<close> fails,
  \<^verbatim>\<open>startDHT\<close> makes the handle and returns no error, and \<^verbatim>\<open>Run\<close> returns the
  error of \<^verbatim>\<open>Bootstrap\<close> (line 107).
\<close>

theorem Run_bootstrap_error_counterexample:
  "fst (startDHT (lab\<lparr>dht_Bootstrap := (\<lambda>kad w. (Some (Error ''no peers''), w))\<rparr>)
          (Run_defaults (lab\<lparr>dht_Bootstrap := (\<lambda>kad w. (Some (Error ''no peers''), w))\<rparr>) 7
             (NewDHT []))
          lab_world) = (Some 0, None) \<and>
   fst (Run (lab\<lparr>dht_Bootstrap := (\<lambda>kad w. (Some (Error ''no peers''), w))\<rparr>) 7 (NewDHT [])
          lab_world) = Returned (ReturnErr (Error ''no peers''))"
  by (simp add: Run_def Run_defaults_def startDHT_def lab_defs)

text \<open>
  C5 as stated fails for callers that overlap. Two callers both pass the test of line
  70 before either creates the handle: \<^verbatim>\<open>dht.New\<close> runs twice, the first caller
  returns the first instance, the second caller replaces \<^verbatim>\<open>d.dht\<close> with the second
  instance and returns that one.
\<close>

theorem startDHT_overlapping_counterexample:
  "startDHT_threads lab [0, 1, 0, 0, 1, 1] [AtCheck, AtCheck] (NewDHT []) lab_world =
     ([Finished (Some 0) None, Finished (Some 1) None],
      (NewDHT [])\<lparr>dht := Some 1\<rparr>,
      [CallNew [] (Inr 0), CallNew [] (Inr 1)],
      lab_world\<lparr>made := 2\<rparr>)"
  by (simp add: lab_defs)

text \<open>
  C5, as the code has it. Over any sequence of requests that do not overlap, through
  \<^verbatim>\<open>Option\<close> or through \<^verbatim>\<open>Run\<close>, \<^verbatim>\<open>dht.New\<close> creates at most one instance,
  every request that gets a handle gets the one \<^verbatim>\<open>d.dht\<close> holds at the end, and a
  \<^verbatim>\<open>d.dht\<close> that is not nil at the start is never replaced and nothing is created.
\<close>

theorem requests_create_once:
  assumes "requests env rq d w = (hs, d', evs, w')"
  shows "length (created evs) \<le> 1 \<and>
         (\<forall>h \<in> set hs. h = None \<or> h = dht d') \<and>
         (dht d' = None \<longrightarrow> created evs = []) \<and>
         (dht d \<noteq> None \<longrightarrow> dht d' = dht d \<and> created evs = [])"
  using assms
proof (induction env rq d w arbitrary: hs d' evs w' rule: requests.induct)
  case (1 env d w)
  then show ?case by simp
next
  case (2 env rq d w)
  obtain h e d1 ev1 w1 where s: "startDHT env d w = ((h, e), d1, ev1, w1)"
    by (metis prod.collapse)
  obtain hs2 d2 ev2 w2 where r: "requests env rq d1 w1 = (hs2, d2, ev2, w2)"
    by (metis prod.collapse)
  have eq: "hs = h # hs2" "d' = d2" "evs = ev1 @ ev2"
    using "2.prems" s r by (simp_all add: Option_Routing_def)
  note st = startDHT_once [OF s]
  note ih = "2.IH" [unfolded Option_Routing_def, OF s[symmetric] refl refl refl r]
  show ?case
    unfolding eq using st ih by (auto simp: created_append)
next
  case (3 env c rq d w)
  obtain out d1 ev1 w1 where s: "Run env c d w = (out, d1, ev1, w1)"
    by (metis prod.collapse)
  note st = Run_once [OF s]
  show ?case
  proof (cases out)
    case (Returned res)
    obtain hs2 d2 ev2 w2 where r: "requests env rq d1 w1 = (hs2, d2, ev2, w2)"
      by (metis prod.collapse)
    show ?thesis
    proof (cases res)
      case (ReturnErr err)
      have eq: "hs = None # hs2" "d' = d2" "evs = ev1 @ ev2"
        using "3.prems" s r Returned ReturnErr by simp_all
      note ih = "3.IH"(1) [OF s[unfolded Returned ReturnErr, symmetric] refl refl refl refl r]
      show ?thesis unfolding eq using st ih by (auto simp: created_append)
    next
      case (ReturnNil kad)
      have eq: "hs = Some kad # hs2" "d' = d2" "evs = ev1 @ ev2"
        using "3.prems" s r Returned ReturnNil by simp_all
      note ih = "3.IH"(2) [OF s[unfolded Returned ReturnNil, symmetric] refl refl refl refl r]
      show ?thesis unfolding eq using st ih Returned ReturnNil by (auto simp: created_append)
    qed
  next
    case Panicked
    then show ?thesis using "3.prems" s st by auto
  next
    case (Blocked b)
    then show ?thesis using "3.prems" s st by auto
  qed
qed

theorem requests_create_once_witness:
  "requests lab [ViaOption, ViaRun 7, ViaOption] (NewDHT []) lab_world =
     ([Some 0, Some 0, Some 0],
      (Run_defaults lab 7 (NewDHT []))\<lparr>dht := Some 0\<rparr>,
      [CallNew [] (Inr 0), Info 7 ''Bootstrapping DHT'', CallBootstrap 0 None],
      lab_world\<lparr>made := 1\<rparr>) \<and>
   length (created [CallNew [] (Inr 0), Info 7 ''Bootstrapping DHT'', CallBootstrap 0 None]) \<le> 1 \<and>
   list_all (\<lambda>h. h = None \<or> h = dht ((Run_defaults lab 7 (NewDHT []))\<lparr>dht := Some 0\<rparr>))
     [Some 0, Some 0, Some 0]"
proof -
  have r: "requests lab [ViaOption, ViaRun 7, ViaOption] (NewDHT []) lab_world =
     ([Some 0, Some 0, Some 0],
      (Run_defaults lab 7 (NewDHT []))\<lparr>dht := Some 0\<rparr>,
      [CallNew [] (Inr 0), Info 7 ''Bootstrapping DHT'', CallBootstrap 0 None],
      lab_world\<lparr>made := 1\<rparr>)"
    by (simp add: Option_Routing_def Run_def Run_defaults_def startDHT_def lab_defs)
  show ?thesis
    using requests_create_once [OF r] r by (simp add: list_all_iff)
qed

subsection \<open>Reading the trace of a pass\<close>

lemma advertised_append: "advertised (xs @ ys) = advertised xs @ advertised ys"
  by (induction xs rule: advertised.induct) auto

lemma timers_append: "timers (xs @ ys) = timers xs + timers ys"
  by (induction xs rule: timers.induct) auto

lemma generated_append: "generated (xs @ ys) = generated xs @ generated ys"
  by (induction xs rule: generated.induct) auto

lemma range_peerChan_quiet:
  "advertised (fst (snd (range_peerChan env lg ps closed w))) = [] \<and>
   timers (fst (snd (range_peerChan env lg ps closed w))) = 0 \<and>
   generated (fst (snd (range_peerChan env lg ps closed w))) = []"
  by (induction ps arbitrary: w) (auto simp add: case_prod_unfold)

lemma worker_step_quiet:
  "advertised (fst (snd (worker_step env c g w))) = [] \<and>
   timers (fst (snd (worker_step env c g w))) = 0 \<and>
   generated (fst (snd (worker_step env c g w))) = []"
  by (cases "(env, c, g, w)" rule: worker_step.cases)
     (auto simp: case_prod_unfold split: option.splits error.splits)

lemma run_workers_quiet:
  "advertised (fst (snd (run_workers env c sched ws w))) = [] \<and>
   timers (fst (snd (run_workers env c sched ws w))) = 0 \<and>
   generated (fst (snd (run_workers env c sched ws w))) = []"
proof (induction sched arbitrary: ws w)
  case Nil
  then show ?case by simp
next
  case (Cons i sched)
  show ?case
    using Cons.IH worker_step_quiet[of env c "ws ! i" w]
    by (auto simp: case_prod_unfold advertised_append timers_append generated_append
             split: option.splits)
qed

lemma run_workers_out:
  "fst (run_workers env c sched ws w) \<in> {Returned (), Panicked, Blocked WgWait}"
  by (induction sched arbitrary: ws w) (auto simp: case_prod_unfold split: option.splits)

lemma bootstrapPeers_quiet:
  "advertised (fst (snd (bootstrapPeers env c sched d w))) = [] \<and>
   timers (fst (snd (bootstrapPeers env c sched d w))) = 0 \<and>
   generated (fst (snd (bootstrapPeers env c sched d w))) = []"
  by (simp add: bootstrapPeers_def run_workers_quiet)

lemma bootstrapPeers_out:
  "fst (bootstrapPeers env c sched d w) \<in> {Returned (), Panicked, Blocked WgWait}"
  unfolding bootstrapPeers_def by (rule run_workers_out)

lemma announceAndConnect_trace:
  "timers (fst (snd (announceAndConnect env d kad rv w))) = 0 \<and>
   generated (fst (snd (announceAndConnect env d kad rv w))) = [] \<and>
   advertised (fst (snd (announceAndConnect env d kad rv w))) =
     (if console d = None then [] else [rv])"
  by (auto simp: announceAndConnect_def case_prod_unfold range_peerChan_quiet
                 advertised_append timers_append generated_append
           split: option.splits sum.splits)

lemma announceAndConnect_out:
  "fst (announceAndConnect env d kad rv w) \<noteq> Blocked Select \<and>
   fst (announceAndConnect env d kad rv w) \<noteq> Blocked WgWait \<and>
   (console d = None \<longrightarrow> fst (announceAndConnect env d kad rv w) = Panicked)"
  by (auto simp: announceAndConnect_def case_prod_unfold range_peerChan_out
           split: option.splits sum.splits)

lemma announceAndConnect_Returned_console:
  "announceAndConnect env d kad rv w = (Returned r, evs, w') \<Longrightarrow> console d \<noteq> None"
  using announceAndConnect_out[of env d kad rv w] by auto

subsection \<open>One discovery cycle\<close>

lemma connect_Returned:
  assumes "connect env c kad sched d w = (Returned (), d', evs, w')"
  obtains evB wB r0 evP wP rv evR wR r evC where
    "bootstrapPeers env c sched d w = (Returned (), evB, wB)"
    "(if latestRendezvous d \<noteq> [] then announceAndConnect env d kad (latestRendezvous d) wB
      else (Returned None, [], wB)) = (Returned r0, evP, wP)"
    "Rendezvous env d wP = (rv, d', evR, wR)"
    "announceAndConnect env d' kad rv wR = (Returned r, evC, w')"
    "evs = evB @ evP @ evR @ evC"
proof -
  obtain oB evB wB where b: "bootstrapPeers env c sched d w = (oB, evB, wB)"
    by (metis prod.collapse)
  obtain oP evP wP where p:
    "(if latestRendezvous d \<noteq> [] then announceAndConnect env d kad (latestRendezvous d) wB
      else (Returned None, [], wB)) = (oP, evP, wP)"
    by (metis prod.collapse)
  obtain rv d3 evR wR where r: "Rendezvous env d wP = (rv, d3, evR, wR)"
    by (metis prod.collapse)
  obtain oC evC wC where a: "announceAndConnect env d3 kad rv wR = (oC, evC, wC)"
    by (metis prod.collapse)
  have oB: "oB = Returned ()"
    using assms b by (cases oB) (auto simp: connect_def)
  obtain r0 where oP: "oP = Returned r0"
    using assms b p oB by (cases oP) (auto simp: connect_def)
  have rest: "d' = d3 \<and> evs = evB @ evP @ evR @ evC \<and> w' = wC \<and>
              (case oC of Returned r' \<Rightarrow> Returned () | Panicked \<Rightarrow> Panicked
               | Blocked b \<Rightarrow> Blocked b) = Returned ()"
    using assms b p r a oB oP by (auto simp: connect_def)
  then obtain r' where oC: "oC = Returned r'" by (cases oC) auto
  show ?thesis
    using that[of evB wB r0 evP wP rv evR wR r' evC] b p r a oB oP oC rest by simp
qed

lemma connect_timers: "timers (fst (snd (snd (connect env c kad sched d w)))) = 0"
proof -
  have "timers (fst (snd (snd (Rendezvous env d0 w0)))) = 0" for d0 and w0 :: 'a
    by (simp add: Rendezvous_def case_prod_unfold)
  then show ?thesis
    using bootstrapPeers_quiet[of env c sched d w]
    by (auto simp: connect_def case_prod_unfold timers_append announceAndConnect_trace
             split: outcome.splits)
qed

lemma connect_out: "fst (connect env c kad sched d w) \<noteq> Blocked Select"
  using bootstrapPeers_out[of env c sched d w] announceAndConnect_out[of env _ kad]
  by (auto simp: connect_def case_prod_unfold split: outcome.splits if_splits)

lemma connect_frame:
  "fst (snd (connect env c kad sched d w)) = d \<or>
   (OTPKey d \<noteq> [] \<and> (\<exists>rv. fst (snd (connect env c kad sched d w)) = d\<lparr>latestRendezvous := rv\<rparr>))"
  by (auto simp: connect_def Rendezvous_def case_prod_unfold split: outcome.splits)

lemma connect_generated:
  assumes "\<forall>key interval w0. length (fst (totp_Now env key (KeyLength d) interval w0)) = n"
  shows "list_all (\<lambda>(digits, rv). digits = KeyLength d \<and> length rv = n)
           (generated (fst (snd (snd (connect env c kad sched d w)))))"
proof -
  have "list_all (\<lambda>(digits, rv). digits = KeyLength d \<and> length rv = n)
          (generated (fst (snd (snd (Rendezvous env d w0)))))" for w0
    using assms by (simp add: Rendezvous_def case_prod_unfold)
  then show ?thesis
    using bootstrapPeers_quiet[of env c sched d w]
    by (auto simp: connect_def case_prod_unfold generated_append announceAndConnect_trace
             split: outcome.splits)
qed

lemma connect_static:
  assumes "OTPKey d = []" and "latestRendezvous d = []"
  shows "fst (snd (connect env c kad sched d w)) = d \<and>
         (advertised (fst (snd (snd (connect env c kad sched d w)))) = [] \<or>
          advertised (fst (snd (snd (connect env c kad sched d w)))) = [RendezvousString d]) \<and>
         (fst (connect env c kad sched d w) = Returned () \<longrightarrow>
            advertised (fst (snd (snd (connect env c kad sched d w)))) = [RendezvousString d])"
  using assms bootstrapPeers_quiet[of env c sched d w]
    announceAndConnect_out[of env d kad "RendezvousString d"]
  by (auto simp: connect_def Rendezvous_def case_prod_unfold advertised_append
                 announceAndConnect_trace
           split: outcome.splits)

lemma connect_bootstrap_first:
  "\<exists>rest. fst (snd (snd (connect env c kad sched d w))) =
            fst (snd (bootstrapPeers env c sched d w)) @ rest \<and>
          (fst (bootstrapPeers env c sched d w) \<noteq> Returned () \<longrightarrow> rest = [])"
  by (auto simp: connect_def case_prod_unfold split: outcome.splits)

lemma connect_advertised_cases:
  "advertised (fst (snd (snd (connect env c kad sched d w)))) = [] \<or>
   (latestRendezvous d \<noteq> [] \<and>
    advertised (fst (snd (snd (connect env c kad sched d w)))) = [latestRendezvous d]) \<or>
   (\<exists>rv. advertised (fst (snd (snd (connect env c kad sched d w)))) =
           (if latestRendezvous d \<noteq> [] then [latestRendezvous d, rv] else [rv]))"
proof -
  have r: "advertised (fst (snd (snd (Rendezvous env d w0)))) = [] \<and>
           console (fst (snd (Rendezvous env d w0))) = console d" for w0
    by (simp add: Rendezvous_def case_prod_unfold)
  show ?thesis
    using bootstrapPeers_quiet[of env c sched d w] r
    by (auto simp: connect_def case_prod_unfold advertised_append announceAndConnect_trace
             split: outcome.splits)
qed

text \<open>
  C4. In every cycle the trace starts with the whole trace of the bootstrap pass, which
  advertises nothing, and goes on only if that pass returned; the values advertised
  are none, or the previous one alone, or the previous one (if there is one) and then
  the current one. A cycle that returns has run its steps in this order, each from the
  world the step before left: the bootstrap pass; if and only if
  \<^verbatim>\<open>latestRendezvous\<close> was not empty, an announce pass under that value, which
  returned; \<^verbatim>\<open>Rendezvous\<close>; an announce pass under the value it gave.
\<close>

theorem connect_order:
  assumes "connect env c kademliaDHT sched d w = (out, d', evs, w')"
  shows "(\<exists>rest. evs = fst (snd (bootstrapPeers env c sched d w)) @ rest \<and>
            (fst (bootstrapPeers env c sched d w) \<noteq> Returned () \<longrightarrow> rest = [])) \<and>
         advertised (fst (snd (bootstrapPeers env c sched d w))) = [] \<and>
         (advertised evs = [] \<or>
          (latestRendezvous d \<noteq> [] \<and> advertised evs = [latestRendezvous d]) \<or>
          (\<exists>rv. advertised evs =
             (if latestRendezvous d \<noteq> [] then [latestRendezvous d, rv] else [rv]))) \<and>
         (out = Returned () \<longrightarrow>
            (\<exists>evB wB evP wP rv evR wR evC.
               bootstrapPeers env c sched d w = (Returned (), evB, wB) \<and>
               (if latestRendezvous d \<noteq> []
                then \<exists>r. announceAndConnect env d kademliaDHT (latestRendezvous d) wB =
                           (Returned r, evP, wP)
                else evP = [] \<and> wP = wB) \<and>
               Rendezvous env d wP = (rv, d', evR, wR) \<and>
               (\<exists>r. announceAndConnect env d' kademliaDHT rv wR = (Returned r, evC, w')) \<and>
               evs = evB @ evP @ evR @ evC \<and>
               advertised evs =
                 (if latestRendezvous d \<noteq> [] then [latestRendezvous d, rv] else [rv])))"
proof -
  have first: "\<exists>rest. evs = fst (snd (bootstrapPeers env c sched d w)) @ rest \<and>
            (fst (bootstrapPeers env c sched d w) \<noteq> Returned () \<longrightarrow> rest = [])"
    using connect_bootstrap_first[of env c kademliaDHT sched d w] assms by simp
  have quiet: "advertised (fst (snd (bootstrapPeers env c sched d w))) = []"
    using bootstrapPeers_quiet[of env c sched d w] by simp
  have cases: "advertised evs = [] \<or>
          (latestRendezvous d \<noteq> [] \<and> advertised evs = [latestRendezvous d]) \<or>
          (\<exists>rv. advertised evs =
             (if latestRendezvous d \<noteq> [] then [latestRendezvous d, rv] else [rv]))"
    using connect_advertised_cases[of env c kademliaDHT sched d w] assms by simp
  have full: "\<exists>evB wB evP wP rv evR wR evC.
               bootstrapPeers env c sched d w = (Returned (), evB, wB) \<and>
               (if latestRendezvous d \<noteq> []
                then \<exists>r. announceAndConnect env d kademliaDHT (latestRendezvous d) wB =
                           (Returned r, evP, wP)
                else evP = [] \<and> wP = wB) \<and>
               Rendezvous env d wP = (rv, d', evR, wR) \<and>
               (\<exists>r. announceAndConnect env d' kademliaDHT rv wR = (Returned r, evC, w')) \<and>
               evs = evB @ evP @ evR @ evC \<and>
               advertised evs =
                 (if latestRendezvous d \<noteq> [] then [latestRendezvous d, rv] else [rv])"
    if ret: "out = Returned ()"
  proof -
    from assms ret obtain evB wB r0 evP wP rv evR wR r evC where
      b: "bootstrapPeers env c sched d w = (Returned (), evB, wB)" and
      p: "(if latestRendezvous d \<noteq> []
           then announceAndConnect env d kademliaDHT (latestRendezvous d) wB
           else (Returned None, [], wB)) = (Returned r0, evP, wP)" and
      g: "Rendezvous env d wP = (rv, d', evR, wR)" and
      a: "announceAndConnect env d' kademliaDHT rv wR = (Returned r, evC, w')" and
      e: "evs = evB @ evP @ evR @ evC"
      using connect_Returned[of env c kademliaDHT sched d w d' evs w'] by metis
    have advB: "advertised evB = []"
      using quiet b by simp
    have advR: "advertised evR = []"
      using g by (auto simp: Rendezvous_def case_prod_unfold split: if_splits)
    have advC: "advertised evC = [rv]"
      using announceAndConnect_trace[of env d' kademliaDHT rv wR]
        announceAndConnect_Returned_console[OF a] a by simp
    have advP: "advertised evP = (if latestRendezvous d \<noteq> [] then [latestRendezvous d] else [])"
    proof (cases "latestRendezvous d \<noteq> []")
      case True
      then have q: "announceAndConnect env d kademliaDHT (latestRendezvous d) wB =
                      (Returned r0, evP, wP)"
        using p by simp
      show ?thesis
        using announceAndConnect_trace[of env d kademliaDHT "latestRendezvous d" wB]
          announceAndConnect_Returned_console[OF q] q True by simp
    next
      case False
      then show ?thesis using p by simp
    qed
    have second: "if latestRendezvous d \<noteq> []
              then \<exists>r. announceAndConnect env d kademliaDHT (latestRendezvous d) wB =
                         (Returned r, evP, wP)
              else evP = [] \<and> wP = wB"
      using p by (auto split: if_splits)
    have "advertised evs =
            (if latestRendezvous d \<noteq> [] then [latestRendezvous d, rv] else [rv])"
      unfolding e by (simp add: advertised_append advB advP advR advC)
    then show ?thesis
      using b second g a e by blast
  qed
  show ?thesis
    using first quiet cases full by blast
qed

theorem connect_order_witness:
  "fst (connect lab 7 0 [0, 0]
      ((NewDHT [])\<lparr>OTPKey := ''K'', KeyLength := 12, latestRendezvous := ''old'',
         console := Some 7, BootstrapPeers := [''/ip4/10.0.0.1/p2p/boot'']\<rparr>)
      lab_world) = Returned () \<and>
   advertised (fst (snd (snd (connect lab 7 0 [0, 0]
      ((NewDHT [])\<lparr>OTPKey := ''K'', KeyLength := 12, latestRendezvous := ''old'',
         console := Some 7, BootstrapPeers := [''/ip4/10.0.0.1/p2p/boot'']\<rparr>)
      lab_world)))) = [''old'', replicate 12 CHR ''7'']"
proof -
  let ?d = "(NewDHT [])\<lparr>OTPKey := ''K'', KeyLength := 12, latestRendezvous := ''old'',
         console := Some 7, BootstrapPeers := [''/ip4/10.0.0.1/p2p/boot'']\<rparr>"
  let ?r = "connect lab 7 0 [0, 0] ?d lab_world"
  have o: "fst ?r = Returned ()"
    by (simp add: connect_def bootstrapPeers_def spawn_def announceAndConnect_def
          Rendezvous_def lab_defs)
  have r: "?r = (Returned (), fst (snd ?r), fst (snd (snd ?r)), snd (snd (snd ?r)))"
    using o by (metis prod.collapse)
  from connect_order [OF r] obtain rv wP evR wR where
    g: "Rendezvous lab ?d wP = (rv, fst (snd ?r), evR, wR)" and
    a: "advertised (fst (snd (snd ?r))) =
          (if latestRendezvous ?d \<noteq> [] then [latestRendezvous ?d, rv] else [rv])"
    by blast
  have "rv = replicate 12 CHR ''7''"
    using g by (auto simp: Rendezvous_def lab_def)
  then show ?thesis using o a by simp
qed

subsection \<open>The refresh loop\<close>

lemma refresh_loop_cancel:
  "refresh_loop env c kad script d w = (Blocked Select, d1, evs, w1) \<Longrightarrow>
     refresh_loop env c kad (script @ CtxDone # rest) d w = (Returned (), d1, evs @ [TimerStop], w1)"
proof (induction script arbitrary: d w evs)
  case Nil
  then show ?case by auto
next
  case (Cons s script)
  show ?case
  proof (cases s)
    case CtxDone
    then show ?thesis using Cons.prems by simp
  next
    case (TimerC sched)
    obtain oc dc evc wc where k: "connect env c kad sched d w = (oc, dc, evc, wc)"
      by (metis prod.collapse)
    show ?thesis
    proof (cases oc)
      case (Returned u)
      obtain ol dl evl wl where l: "refresh_loop env c kad script dc wc = (ol, dl, evl, wl)"
        by (metis prod.collapse)
      have "ol = Blocked Select" "dl = d1" "wl = w1"
        and e: "evs = NewTimer (RefreshDiscoveryTime d) # evc @ evl"
        using Cons.prems TimerC k Returned l by simp_all
      then have "refresh_loop env c kad (script @ CtxDone # rest) dc wc =
                   (Returned (), d1, evl @ [TimerStop], w1)"
        using Cons.IH[of dc wc evl] l by simp
      then show ?thesis using TimerC k Returned e by simp
    next
      case Panicked
      then show ?thesis using Cons.prems TimerC k by simp
    next
      case (Blocked b)
      then have "b \<noteq> Select" using connect_out[of env c kad sched d w] k by auto
      then show ?thesis using Cons.prems TimerC k Blocked by simp
    qed
  qed
qed

text \<open>
  C6. When the goroutine waits in the \<^verbatim>\<open>select\<close> (after any number of cycles) and
  the context is done, it stops the timer and returns: the trace grows by
  \<^verbatim>\<open>timer.Stop\<close> alone, the struct and the world stay as they were, and nothing
  that could follow (\<open>rest\<close>) is taken.
\<close>

theorem refresh_cancelled_while_waiting:
  assumes "refresh env c kademliaDHT sched0 script d w = (Blocked Select, d1, evs, w1)"
  shows "refresh env c kademliaDHT sched0 (script @ CtxDone # rest) d w =
           (Returned (), d1, evs @ [TimerStop], w1)"
proof -
  obtain oc dc evc wc where k: "connect env c kademliaDHT sched0 d w = (oc, dc, evc, wc)"
    by (metis prod.collapse)
  show ?thesis
  proof (cases oc)
    case (Returned u)
    obtain ol dl evl wl where l: "refresh_loop env c kademliaDHT script dc wc = (ol, dl, evl, wl)"
      by (metis prod.collapse)
    have "ol = Blocked Select" "dl = d1" "wl = w1" and e: "evs = evc @ evl"
      using assms k Returned l by (simp_all add: refresh_def)
    then have "refresh_loop env c kademliaDHT (script @ CtxDone # rest) dc wc =
                 (Returned (), d1, evl @ [TimerStop], w1)"
      using refresh_loop_cancel[of env c kademliaDHT script dc wc d1 evl w1] l by simp
    then show ?thesis using k Returned e by (simp add: refresh_def)
  next
    case Panicked
    then show ?thesis using assms k by (simp add: refresh_def)
  next
    case (Blocked b)
    then have "b \<noteq> Select" using connect_out[of env c kademliaDHT sched0 d w] k by auto
    then show ?thesis using assms k Blocked by (simp add: refresh_def)
  qed
qed

theorem refresh_cancelled_while_waiting_witness:
  "fst (refresh lab 7 0 [0, 0] [TimerC [0]]
      ((NewDHT [])\<lparr>RendezvousString := ''room'', console := Some 7,
         BootstrapPeers := [''/ip4/10.0.0.1/p2p/boot'']\<rparr>) lab_world) = Blocked Select \<and>
   fst (refresh lab 7 0 [0, 0] [TimerC [0], CtxDone, TimerC [0]]
      ((NewDHT [])\<lparr>RendezvousString := ''room'', console := Some 7,
         BootstrapPeers := [''/ip4/10.0.0.1/p2p/boot'']\<rparr>) lab_world) = Returned () \<and>
   fst (snd (snd (refresh lab 7 0 [0, 0] [TimerC [0], CtxDone, TimerC [0]]
      ((NewDHT [])\<lparr>RendezvousString := ''room'', console := Some 7,
         BootstrapPeers := [''/ip4/10.0.0.1/p2p/boot'']\<rparr>) lab_world))) =
   fst (snd (snd (refresh lab 7 0 [0, 0] [TimerC [0]]
      ((NewDHT [])\<lparr>RendezvousString := ''room'', console := Some 7,
         BootstrapPeers := [''/ip4/10.0.0.1/p2p/boot'']\<rparr>) lab_world))) @ [TimerStop]"
proof -
  let ?d = "(NewDHT [])\<lparr>RendezvousString := ''room'', console := Some 7,
         BootstrapPeers := [''/ip4/10.0.0.1/p2p/boot'']\<rparr>"
  let ?r = "refresh lab 7 0 [0, 0] [TimerC [0]] ?d lab_world"
  have o: "fst ?r = Blocked Select"
    by (simp add: refresh_def connect_def bootstrapPeers_def spawn_def announceAndConnect_def
          Rendezvous_def lab_defs)
  have r: "?r = (Blocked Select, fst (snd ?r), fst (snd (snd ?r)), snd (snd (snd ?r)))"
    using o by (metis prod.collapse)
  show ?thesis
    using refresh_cancelled_while_waiting [OF r, of "[TimerC [0]]"] o by simp
qed

subsection \<open>Invariants of a session\<close>

lemma Run_defaults_fields:
  "OTPKey (Run_defaults env c d) = OTPKey d \<and>
   latestRendezvous (Run_defaults env c d) = latestRendezvous d \<and>
   RendezvousString (Run_defaults env c d) = RendezvousString d \<and>
   KeyLength (Run_defaults env c d) = (if KeyLength d = 0 then 12 else KeyLength d)"
  by (simp add: Run_defaults_def Let_def)

lemma startDHT_fields:
  "OTPKey (fst (snd (startDHT env d w))) = OTPKey d \<and>
   latestRendezvous (fst (snd (startDHT env d w))) = latestRendezvous d \<and>
   RendezvousString (fst (snd (startDHT env d w))) = RendezvousString d \<and>
   KeyLength (fst (snd (startDHT env d w))) = KeyLength d \<and>
   generated (fst (snd (snd (startDHT env d w)))) = []"
  by (auto simp: startDHT_def split: prod.splits sum.splits)

lemma Run_fields:
  assumes "Run env c d w = (out, d1, ev1, w1)"
  shows "OTPKey d1 = OTPKey d \<and> latestRendezvous d1 = latestRendezvous d \<and>
         RendezvousString d1 = RendezvousString d \<and>
         KeyLength d1 = (if KeyLength d = 0 then 12 else KeyLength d) \<and>
         generated ev1 = []"
proof -
  let ?s = "startDHT env (Run_defaults env c d) w"
  have "d1 = fst (snd ?s)"
    using assms by (auto simp: Run_def split: prod.splits option.splits)
  moreover have "generated ev1 = generated (fst (snd (snd ?s)))"
    using assms by (auto simp: Run_def generated_append split: prod.splits option.splits)
  ultimately show ?thesis
    using startDHT_fields[of env "Run_defaults env c d" w] Run_defaults_fields[of env c d]
    by simp
qed

lemma connect_KeyLength: "KeyLength (fst (snd (connect env c kad sched d w))) = KeyLength d"
  using connect_frame[of env c kad sched d w] by auto

lemma refresh_loop_generated:
  assumes "\<forall>key interval w0. length (fst (totp_Now env key 12 interval w0)) = 12"
  shows "KeyLength d = 12 \<Longrightarrow> refresh_loop env c kad script d w = (out, d2, evs, w2) \<Longrightarrow>
           KeyLength d2 = 12 \<and>
           list_all (\<lambda>(digits, rv). digits = 12 \<and> length rv = 12) (generated evs)"
proof (induction script arbitrary: d w out d2 evs w2)
  case Nil
  then show ?case by auto
next
  case (Cons s script)
  show ?case
  proof (cases s)
    case CtxDone
    then show ?thesis using Cons.prems by auto
  next
    case (TimerC sched)
    obtain oc dc evc wc where k: "connect env c kad sched d w = (oc, dc, evc, wc)"
      by (metis prod.collapse)
    have kl: "KeyLength dc = 12"
      using connect_KeyLength[of env c kad sched d w] k Cons.prems(1) by simp
    have g: "list_all (\<lambda>(digits, rv). digits = 12 \<and> length rv = 12) (generated evc)"
      using connect_generated[of env d 12 c kad sched w] assms k Cons.prems(1) by simp
    show ?thesis
    proof (cases oc)
      case (Returned u)
      obtain ol dl evl wl where l: "refresh_loop env c kad script dc wc = (ol, dl, evl, wl)"
        by (metis prod.collapse)
      have e: "d2 = dl" "evs = NewTimer (RefreshDiscoveryTime d) # evc @ evl"
        using Cons.prems(2) TimerC k Returned l by simp_all
      show ?thesis
        unfolding e using Cons.IH[OF kl l] g by (simp add: generated_append)
    next
      case Panicked
      then show ?thesis using Cons.prems(2) TimerC k kl g by auto
    next
      case (Blocked b)
      then show ?thesis using Cons.prems(2) TimerC k kl g by auto
    qed
  qed
qed

lemma refresh_generated:
  assumes "\<forall>key interval w0. length (fst (totp_Now env key 12 interval w0)) = 12"
    and "KeyLength d = 12"
    and "refresh env c kad sched0 script d w = (out, d2, evs, w2)"
  shows "KeyLength d2 = 12 \<and>
         list_all (\<lambda>(digits, rv). digits = 12 \<and> length rv = 12) (generated evs)"
proof -
  obtain oc dc evc wc where k: "connect env c kad sched0 d w = (oc, dc, evc, wc)"
    by (metis prod.collapse)
  have kl: "KeyLength dc = 12"
    using connect_KeyLength[of env c kad sched0 d w] k assms(2) by simp
  have g: "list_all (\<lambda>(digits, rv). digits = 12 \<and> length rv = 12) (generated evc)"
    using connect_generated[of env d 12 c kad sched0 w] assms(1,2) k by simp
  show ?thesis
  proof (cases oc)
    case (Returned u)
    obtain ol dl evl wl where l: "refresh_loop env c kad script dc wc = (ol, dl, evl, wl)"
      by (metis prod.collapse)
    have e: "d2 = dl" "evs = evc @ evl"
      using assms(3) k Returned l by (simp_all add: refresh_def)
    show ?thesis
      unfolding e using refresh_loop_generated[OF assms(1) kl l] g
      by (simp add: generated_append)
  next
    case Panicked
    then show ?thesis using assms(3) k kl g by (auto simp: refresh_def)
  next
    case (Blocked b)
    then show ?thesis using assms(3) k kl g by (auto simp: refresh_def)
  qed
qed

text \<open>
  C9 as stated fails: the default is set in \<^verbatim>\<open>Run\<close> only. On a struct from
  \<^verbatim>\<open>NewDHT\<close> with \<^verbatim>\<open>OTPKey\<close> set, the exported \<^verbatim>\<open>Rendezvous\<close> called
  before \<^verbatim>\<open>Run\<close> reads \<^verbatim>\<open>KeyLength\<close> as it is and asks the generator for 0
  digits; the struct keeps \<^verbatim>\<open>KeyLength\<close> 0.
\<close>

theorem Rendezvous_before_Run_counterexample:
  "KeyLength ((NewDHT [])\<lparr>OTPKey := ''K''\<rparr>) = 0 \<and>
   Rendezvous lab ((NewDHT [])\<lparr>OTPKey := ''K''\<rparr>) lab_world =
     ([], (NewDHT [])\<lparr>OTPKey := ''K'', latestRendezvous := []\<rparr>,
      [CallTOTPNow ''K'' 0 0 []], lab_world) \<and>
   KeyLength (fst (snd (Rendezvous lab ((NewDHT [])\<lparr>OTPKey := ''K''\<rparr>) lab_world))) = 0"
  by (simp add: Rendezvous_def lab_defs)

text \<open>
  C9, as the code has it. When \<^verbatim>\<open>Run\<close> is called with \<^verbatim>\<open>KeyLength\<close> zero it
  sets it to 12 and generates no identifier itself. From then on every call of the
  TOTP generator asks for 12 digits: in a call of \<^verbatim>\<open>Rendezvous\<close> on the struct
  \<^verbatim>\<open>Run\<close> left, in every cycle of the goroutine \<^verbatim>\<open>Run\<close> started, which keeps
  \<^verbatim>\<open>KeyLength\<close> at 12, and in a call of \<^verbatim>\<open>Rendezvous\<close> on the struct the
  goroutine left. With a generator that returns as many characters as the digits asked
  for (the one parameter of the claim that is not code of the repository), every
  identifier so generated has 12 characters.
\<close>

theorem KeyLength_defaults_to_12:
  assumes "KeyLength d = 0"
    and "\<forall>key interval w0. length (fst (totp_Now env key 12 interval w0)) = 12"
    and "Run env c d w = (out, d1, ev1, w1)"
  shows "KeyLength d1 = 12 \<and> generated ev1 = [] \<and>
         list_all (\<lambda>(digits, rv). digits = 12 \<and> length rv = 12)
           (generated (fst (snd (snd (Rendezvous env d1 w3))))) \<and>
         (out = Returned (ReturnNil kademliaDHT) \<and>
          refresh env c kademliaDHT sched0 script d1 w1 = (out2, d2, ev2, w2) \<longrightarrow>
            KeyLength d2 = 12 \<and>
            list_all (\<lambda>(digits, rv). digits = 12 \<and> length rv = 12) (generated ev2) \<and>
            list_all (\<lambda>(digits, rv). digits = 12 \<and> length rv = 12)
              (generated (fst (snd (snd (Rendezvous env d2 w4))))))"
proof -
  have direct: "list_all (\<lambda>(digits, rv). digits = 12 \<and> length rv = 12)
                  (generated (fst (snd (snd (Rendezvous env d0 w0)))))"
    if "KeyLength d0 = 12" for d0 w0
    using that assms(2) by (simp add: Rendezvous_def case_prod_unfold)
  have a: "KeyLength d1 = 12 \<and> generated ev1 = []"
    using Run_fields[OF assms(3)] assms(1) by simp
  have "KeyLength d2 = 12 \<and>
        list_all (\<lambda>(digits, rv). digits = 12 \<and> length rv = 12) (generated ev2) \<and>
        list_all (\<lambda>(digits, rv). digits = 12 \<and> length rv = 12)
          (generated (fst (snd (snd (Rendezvous env d2 w4)))))"
    if r: "refresh env c kademliaDHT sched0 script d1 w1 = (out2, d2, ev2, w2)"
  proof -
    have g: "KeyLength d2 = 12 \<and>
             list_all (\<lambda>(digits, rv). digits = 12 \<and> length rv = 12) (generated ev2)"
      using refresh_generated[OF assms(2) _ r] a by simp
    then show ?thesis using direct[of d2 w4] by simp
  qed
  then show ?thesis using a direct[of d1 w3] by blast
qed

theorem KeyLength_defaults_to_12_witness:
  "KeyLength ((NewDHT [])\<lparr>OTPKey := ''K''\<rparr>) = 0 \<and>
   fst (Run lab 7 ((NewDHT [])\<lparr>OTPKey := ''K''\<rparr>) lab_world) = Returned (ReturnNil 0) \<and>
   KeyLength (fst (snd (Run lab 7 ((NewDHT [])\<lparr>OTPKey := ''K''\<rparr>) lab_world))) = 12 \<and>
   generated (fst (snd (snd (Rendezvous lab
      (fst (snd (Run lab 7 ((NewDHT [])\<lparr>OTPKey := ''K''\<rparr>) lab_world))) lab_world)))) =
     [(12, replicate 12 CHR ''7'')] \<and>
   generated (fst (snd (snd (refresh lab 7 0 [0, 0] [TimerC [0], CtxDone]
      (fst (snd (Run lab 7 ((NewDHT [])\<lparr>OTPKey := ''K''\<rparr>) lab_world)))
      (snd (snd (snd (Run lab 7 ((NewDHT [])\<lparr>OTPKey := ''K''\<rparr>) lab_world)))))))) =
     [(12, replicate 12 CHR ''7''), (12, replicate 12 CHR ''7'')] \<and>
   list_all (\<lambda>(digits, rv). digits = 12 \<and> length rv = 12)
     (generated (fst (snd (snd (refresh lab 7 0 [0, 0] [TimerC [0], CtxDone]
      (fst (snd (Run lab 7 ((NewDHT [])\<lparr>OTPKey := ''K''\<rparr>) lab_world)))
      (snd (snd (snd (Run lab 7 ((NewDHT [])\<lparr>OTPKey := ''K''\<rparr>) lab_world)))))))))"
proof -
  let ?d = "(NewDHT [])\<lparr>OTPKey := ''K''\<rparr>"
  let ?run = "Run lab 7 ?d lab_world"
  let ?r = "refresh lab 7 0 [0, 0] [TimerC [0], CtxDone] (fst (snd ?run)) (snd (snd (snd ?run)))"
  have k: "KeyLength ?d = 0" by (simp add: NewDHT_def)
  have t: "\<forall>key interval w0. length (fst (totp_Now lab key 12 interval w0)) = 12"
    by (simp add: lab_def)
  have o: "fst ?run = Returned (ReturnNil 0)"
    by (simp add: Run_def Run_defaults_def startDHT_def lab_defs)
  have run: "?run = (Returned (ReturnNil 0), fst (snd ?run), fst (snd (snd ?run)),
                     snd (snd (snd ?run)))"
    using o by (metis prod.collapse)
  have r: "?r = (fst ?r, fst (snd ?r), fst (snd (snd ?r)), snd (snd (snd ?r)))" by simp
  note th = KeyLength_defaults_to_12 [OF k t run, of lab_world 0 "[0, 0]" "[TimerC [0], CtxDone]"
      "fst ?r" "fst (snd ?r)" "fst (snd (snd ?r))" "snd (snd (snd ?r))" lab_world]
  have k1: "KeyLength (fst (snd ?run)) = 12"
    and l: "list_all (\<lambda>(digits, rv). digits = 12 \<and> length rv = 12)
              (generated (fst (snd (snd ?r))))"
    using th r by simp_all
  have g1: "generated (fst (snd (snd (Rendezvous lab (fst (snd ?run)) lab_world)))) =
              [(12, replicate 12 CHR ''7'')]"
    by (simp add: Rendezvous_def Run_def Run_defaults_def startDHT_def lab_defs)
  have g: "generated (fst (snd (snd ?r))) =
             [(12, replicate 12 CHR ''7''), (12, replicate 12 CHR ''7'')]"
    by (simp add: refresh_def connect_def bootstrapPeers_def spawn_def announceAndConnect_def
          Rendezvous_def Run_def Run_defaults_def startDHT_def lab_defs)
  show ?thesis
    using k o k1 l g1 g by blast
qed

lemma refresh_loop_static:
  "OTPKey d = [] \<Longrightarrow> latestRendezvous d = [] \<Longrightarrow>
   refresh_loop env c kad script d w = (out, d2, evs, w2) \<Longrightarrow>
     d2 = d \<and> list_all (\<lambda>rv. rv = RendezvousString d) (advertised evs) \<and>
     length (advertised evs) \<le> timers evs \<and> timers evs \<le> Suc (length (advertised evs)) \<and>
     (out = Returned () \<or> out = Blocked Select \<longrightarrow>
        timers evs = Suc (length (advertised evs)))"
proof (induction script arbitrary: w out d2 evs w2)
  case Nil
  then show ?case by auto
next
  case (Cons s script)
  show ?case
  proof (cases s)
    case CtxDone
    then show ?thesis using Cons.prems by auto
  next
    case (TimerC sched)
    obtain oc dc evc wc where k: "connect env c kad sched d w = (oc, dc, evc, wc)"
      by (metis prod.collapse)
    note st = connect_static[OF Cons.prems(1,2), of env c kad sched w, unfolded k, simplified]
    have tm: "timers evc = 0"
      using connect_timers[of env c kad sched d w] k by simp
    show ?thesis
    proof (cases oc)
      case (Returned u)
      obtain ol dl evl wl where l: "refresh_loop env c kad script d wc = (ol, dl, evl, wl)"
        by (metis prod.collapse)
      have e: "out = ol" "d2 = dl" "evs = NewTimer (RefreshDiscoveryTime d) # evc @ evl"
        using Cons.prems(3) TimerC k Returned l st by simp_all
      show ?thesis
        unfolding e using Cons.IH[OF Cons.prems(1,2) l] st tm Returned
        by (auto simp: advertised_append timers_append)
    next
      case Panicked
      then show ?thesis
        using Cons.prems(3) TimerC k st tm by (auto simp: advertised_append timers_append)
    next
      case (Blocked b)
      then have "b \<noteq> Select" using connect_out[of env c kad sched d w] k by auto
      then show ?thesis
        using Cons.prems(3) TimerC k st tm Blocked
        by (auto simp: advertised_append timers_append)
    qed
  qed
qed

text \<open>
  C10. In static mode (\<^verbatim>\<open>OTPKey\<close> empty, \<^verbatim>\<open>latestRendezvous\<close> empty as
  \<^verbatim>\<open>NewDHT\<close> leaves it), \<^verbatim>\<open>Run\<close> and every cycle of the goroutine leave the
  struct as it is, so \<^verbatim>\<open>latestRendezvous\<close> stays empty. Every value advertised is
  \<^verbatim>\<open>RendezvousString\<close>. Each completed cycle is followed by one \<^verbatim>\<open>time.NewTimer\<close>,
  and the announce passes are as many as the completed cycles when the goroutine
  waits or has returned (one more at most when the last cycle was cut short): one
  pass per cycle, never the catch-up pass.
\<close>

theorem static_mode_one_pass_per_cycle:
  assumes "OTPKey d = []" and "latestRendezvous d = []"
    and "Run env c d w = (Returned (ReturnNil kademliaDHT), d1, ev1, w1)"
    and "refresh env c kademliaDHT sched0 script d1 w1 = (out, d2, ev2, w2)"
  shows "latestRendezvous d1 = [] \<and> d2 = d1 \<and> advertised ev1 = [] \<and>
         list_all (\<lambda>rv. rv = RendezvousString d) (advertised ev2) \<and>
         timers ev2 \<le> length (advertised ev2) \<and>
         length (advertised ev2) \<le> Suc (timers ev2) \<and>
         (out = Returned () \<or> out = Blocked Select \<longrightarrow>
            length (advertised ev2) = timers ev2)"
proof -
  note f = Run_fields[OF assms(3)]
  have s1: "OTPKey d1 = []" and s2: "latestRendezvous d1 = []"
    and rs: "RendezvousString d1 = RendezvousString d"
    using f assms(1,2) by simp_all
  have a1: "advertised ev1 = []"
    using assms(3)
    by (auto simp: Run_def startDHT_def advertised_append
             split: prod.splits option.splits sum.splits if_splits)
  obtain oc dc evc wc where k: "connect env c kademliaDHT sched0 d1 w1 = (oc, dc, evc, wc)"
    by (metis prod.collapse)
  note st = connect_static[OF s1 s2, of env c kademliaDHT sched0 w1, unfolded k, simplified]
  have tm: "timers evc = 0"
    using connect_timers[of env c kademliaDHT sched0 d1 w1] k by simp
  have "d2 = d1 \<and>
         list_all (\<lambda>rv. rv = RendezvousString d1) (advertised ev2) \<and>
         timers ev2 \<le> length (advertised ev2) \<and>
         length (advertised ev2) \<le> Suc (timers ev2) \<and>
         (out = Returned () \<or> out = Blocked Select \<longrightarrow>
            length (advertised ev2) = timers ev2)"
  proof (cases oc)
    case (Returned u)
    obtain ol dl evl wl where l: "refresh_loop env c kademliaDHT script d1 wc = (ol, dl, evl, wl)"
      by (metis prod.collapse)
    have e: "out = ol" "d2 = dl" "ev2 = evc @ evl"
      using assms(4) k Returned l st by (simp_all add: refresh_def)
    show ?thesis
      unfolding e using refresh_loop_static[OF s1 s2 l] st tm Returned
      by (auto simp: advertised_append timers_append)
  next
    case Panicked
    then show ?thesis
      using assms(4) k st tm by (auto simp: refresh_def)
  next
    case (Blocked b)
    then have "b \<noteq> Select" using connect_out[of env c kademliaDHT sched0 d1 w1] k by auto
    then show ?thesis
      using assms(4) k st tm Blocked by (auto simp: refresh_def)
  qed
  then show ?thesis using s2 a1 rs by simp
qed

theorem static_mode_one_pass_per_cycle_witness:
  "OTPKey ((NewDHT [])\<lparr>RendezvousString := ''room''\<rparr>) = [] \<and>
   latestRendezvous ((NewDHT [])\<lparr>RendezvousString := ''room''\<rparr>) = [] \<and>
   fst (Run lab 7 ((NewDHT [])\<lparr>RendezvousString := ''room''\<rparr>) lab_world) =
     Returned (ReturnNil 0) \<and>
   fst (refresh lab 7 0 [0, 0] [TimerC [0], TimerC [0]]
      (fst (snd (Run lab 7 ((NewDHT [])\<lparr>RendezvousString := ''room''\<rparr>) lab_world)))
      (snd (snd (snd (Run lab 7 ((NewDHT [])\<lparr>RendezvousString := ''room''\<rparr>) lab_world))))) =
     Blocked Select \<and>
   advertised (fst (snd (snd (refresh lab 7 0 [0, 0] [TimerC [0], TimerC [0]]
      (fst (snd (Run lab 7 ((NewDHT [])\<lparr>RendezvousString := ''room''\<rparr>) lab_world)))
      (snd (snd (snd (Run lab 7 ((NewDHT [])\<lparr>RendezvousString := ''room''\<rparr>) lab_world)))))))) =
     [''room'', ''room'', ''room''] \<and>
   timers (fst (snd (snd (refresh lab 7 0 [0, 0] [TimerC [0], TimerC [0]]
      (fst (snd (Run lab 7 ((NewDHT [])\<lparr>RendezvousString := ''room''\<rparr>) lab_world)))
      (snd (snd (snd (Run lab 7 ((NewDHT [])\<lparr>RendezvousString := ''room''\<rparr>) lab_world)))))))) = 3 \<and>
   latestRendezvous (fst (snd (refresh lab 7 0 [0, 0] [TimerC [0], TimerC [0]]
      (fst (snd (Run lab 7 ((NewDHT [])\<lparr>RendezvousString := ''room''\<rparr>) lab_world)))
      (snd (snd (snd (Run lab 7 ((NewDHT [])\<lparr>RendezvousString := ''room''\<rparr>) lab_world))))))) = []"
proof -
  let ?d = "(NewDHT [])\<lparr>RendezvousString := ''room''\<rparr>"
  let ?run = "Run lab 7 ?d lab_world"
  let ?r = "refresh lab 7 0 [0, 0] [TimerC [0], TimerC [0]] (fst (snd ?run))
              (snd (snd (snd ?run)))"
  have k1: "OTPKey ?d = []" and k2: "latestRendezvous ?d = []"
    by (simp_all add: NewDHT_def)
  have o: "fst ?run = Returned (ReturnNil 0)"
    by (simp add: Run_def Run_defaults_def startDHT_def lab_defs)
  have run: "?run = (Returned (ReturnNil 0), fst (snd ?run), fst (snd (snd ?run)),
                     snd (snd (snd ?run)))"
    using o by (metis prod.collapse)
  have r: "?r = (fst ?r, fst (snd ?r), fst (snd (snd ?r)), snd (snd (snd ?r)))" by simp
  note th = static_mode_one_pass_per_cycle [OF k1 k2 run r]
  have b: "fst ?r = Blocked Select"
    by (simp add: refresh_def connect_def bootstrapPeers_def spawn_def announceAndConnect_def
          Rendezvous_def Run_def Run_defaults_def startDHT_def lab_defs)
  have a: "advertised (fst (snd (snd ?r))) = [''room'', ''room'', ''room'']"
    by (simp add: refresh_def connect_def bootstrapPeers_def spawn_def announceAndConnect_def
          Rendezvous_def Run_def Run_defaults_def startDHT_def lab_defs)
  have "timers (fst (snd (snd ?r))) = 3 \<and> latestRendezvous (fst (snd ?r)) = []"
    using th b a by simp
  then show ?thesis using k1 k2 o b a by simp
qed

end
